theory Spec2Isabelle
  imports Main "HOL-Library.List_Lexorder" "HOL-Library.AList"
begin

section \<open>Python strings\<close>

text \<open>
  A Python \<open>str\<close> is a sequence of Unicode code points; it is modelled as a list of
  integers, one per code point, so that \<open>length\<close> counts what \<open>len\<close> counts.
  \<open>U\<close> turns an ASCII literal into such a list.

  The whitespace set (\<open>str.isspace\<close>, \<open>str.strip\<close>, \<open>str.split\<close> and the class
  \<open>\s\<close> of \<open>re\<close>) and the line boundaries of \<open>str.splitlines\<close> are the complete
  sets of CPython. The case mappings, the case-insensitive comparison of \<open>re\<close> and
  the decimal digits are written out for U+0000..U+00FF, where all the letters of
  the literals in the sources lie. Above U+00FF they are those of the Unicode
  tables of the interpreter, which are a parameter of every function below: a
  \<open>platform\<close>. Nothing is assumed about it.
\<close>

type_synonym pystr = "int list"

definition U :: "string \<Rightarrow> pystr" where
  "U s = map of_char s"

text \<open>
  \<open>upper_high c\<close> and \<open>lower_high c\<close> are the full upper-case and lower-case mappings
  of a code point above U+00FF (one to three code points); \<open>final_sigma s i\<close> says
  whether the capital sigma at position \<open>i\<close> of \<open>s\<close> ends a word, the one rule of
  \<open>str.lower\<close> that looks at the context; \<open>fold_high c x\<close> says whether \<open>re\<close> with
  \<open>IGNORECASE\<close> lets the pattern character \<open>c\<close> match the character \<open>x\<close> when one of
  them is above U+00FF; \<open>digit_high c\<close> is the value of a decimal digit above
  U+00FF; \<open>max_str_digits\<close> is the limit of the interpreter on the digits of an
  integer read from a string, \<open>0\<close> for no limit.
\<close>

record platform =
  upper_high :: "int \<Rightarrow> pystr"
  lower_high :: "int \<Rightarrow> pystr"
  final_sigma :: "pystr \<Rightarrow> nat \<Rightarrow> bool"
  fold_high :: "int \<Rightarrow> int \<Rightarrow> bool"
  digit_high :: "int \<Rightarrow> int option"
  max_str_digits :: nat

definition is_space :: "int \<Rightarrow> bool" where
  "is_space c =
     ((9 \<le> c \<and> c \<le> 13) \<or> (28 \<le> c \<and> c \<le> 32) \<or> c = 133 \<or> c = 160 \<or> c = 5760 \<or>
      (8192 \<le> c \<and> c \<le> 8202) \<or> c = 8232 \<or> c = 8233 \<or> c = 8239 \<or> c = 8287 \<or>
      c = 12288)"

definition is_linebreak :: "int \<Rightarrow> bool" where
  "is_linebreak c =
     ((10 \<le> c \<and> c \<le> 13) \<or> (28 \<le> c \<and> c \<le> 30) \<or> c = 133 \<or> c = 8232 \<or> c = 8233)"

text \<open>
  The decimal digits: \<open>\d\<close> of \<open>re\<close> and the digits that \<open>int\<close> reads. No whitespace
  character is a decimal digit.
\<close>

definition digit_value :: "platform \<Rightarrow> int \<Rightarrow> int option" where
  "digit_value P c =
     (if c \<le> 255 then (if 48 \<le> c \<and> c \<le> 57 then Some (c - 48) else None)
      else if is_space c then None
      else digit_high P c)"

definition is_digit :: "platform \<Rightarrow> int \<Rightarrow> bool" where
  "is_digit P c = (digit_value P c \<noteq> None)"

text \<open>The case tables of U+0000..U+00FF.\<close>

definition lower_latin1 :: "int \<Rightarrow> int" where
  "lower_latin1 c =
     (if (65 \<le> c \<and> c \<le> 90) \<or> (192 \<le> c \<and> c \<le> 222 \<and> c \<noteq> 215) then c + 32 else c)"

definition upper_latin1 :: "int \<Rightarrow> pystr" where
  "upper_latin1 c =
     (if (97 \<le> c \<and> c \<le> 122) \<or> (224 \<le> c \<and> c \<le> 254 \<and> c \<noteq> 247) then [c - 32]
      else if c = 223 then [83, 83]
      else if c = 255 then [376]
      else if c = 181 then [924]
      else [c])"

text \<open>\<open>s.upper()\<close>: every code point is replaced by its upper-case mapping.\<close>

definition upper_cp :: "platform \<Rightarrow> int \<Rightarrow> pystr" where
  "upper_cp P c = (if c \<le> 255 then upper_latin1 c else upper_high P c)"

definition py_upper :: "platform \<Rightarrow> pystr \<Rightarrow> pystr" where
  "py_upper P s = concat (map (upper_cp P) s)"

text \<open>
  \<open>s.lower()\<close>: every code point is replaced by its lower-case mapping; the capital
  sigma (U+03A3) becomes the final sigma (U+03C2) at the end of a word and the
  small sigma (U+03C3) elsewhere. \<open>i\<close> is the position of the first character of
  \<open>rest\<close> in \<open>s\<close>.
\<close>

fun lower_from :: "platform \<Rightarrow> pystr \<Rightarrow> nat \<Rightarrow> pystr \<Rightarrow> pystr" where
  "lower_from P s i [] = []"
| "lower_from P s i (c # rest) =
     (if c \<le> 255 then [lower_latin1 c]
      else if c = 931 then [if final_sigma P s i then 962 else 963]
      else lower_high P c)
     @ lower_from P s (Suc i) rest"

definition py_lower :: "platform \<Rightarrow> pystr \<Rightarrow> pystr" where
  "py_lower P s = lower_from P s 0 s"

definition py_lstrip :: "pystr \<Rightarrow> pystr" where
  "py_lstrip s = dropWhile is_space s"

definition py_rstrip :: "pystr \<Rightarrow> pystr" where
  "py_rstrip s = rev (dropWhile is_space (rev s))"

definition py_strip :: "pystr \<Rightarrow> pystr" where
  "py_strip s = py_rstrip (py_lstrip s)"

definition py_startswith :: "pystr \<Rightarrow> pystr \<Rightarrow> bool" where
  "py_startswith s p = (take (length p) s = p)"

text \<open>\<open>sep.join(xs)\<close>.\<close>

fun py_join :: "pystr \<Rightarrow> pystr list \<Rightarrow> pystr" where
  "py_join sep [] = []"
| "py_join sep [x] = x"
| "py_join sep (x # y # ys) = x @ sep @ py_join sep (y # ys)"

text \<open>
  \<open>s.splitlines()\<close>: the line under construction is kept reversed in \<open>cur\<close>; a line
  boundary closes it, \<open>\r\n\<close> counts as one boundary, and no empty last line is
  produced after a final boundary.
\<close>

fun splitlines_from :: "pystr \<Rightarrow> pystr \<Rightarrow> pystr list" where
  "splitlines_from cur [] = (if cur = [] then [] else [rev cur])"
| "splitlines_from cur (c # cs) =
     (if is_linebreak c then
        rev cur # (case cs of
                     [] \<Rightarrow> []
                   | d # ds \<Rightarrow> if c = 13 \<and> d = 10 then splitlines_from [] ds
                              else splitlines_from [] (d # ds))
      else splitlines_from (c # cur) cs)"

definition py_splitlines :: "pystr \<Rightarrow> pystr list" where
  "py_splitlines s = splitlines_from [] s"

text \<open>\<open>s.split()\<close>: the maximal runs of non-whitespace characters.\<close>

fun split_from :: "pystr \<Rightarrow> pystr \<Rightarrow> pystr list" where
  "split_from cur [] = (if cur = [] then [] else [rev cur])"
| "split_from cur (c # cs) =
     (if is_space c then (if cur = [] then [] else [rev cur]) @ split_from [] cs
      else split_from (c # cur) cs)"

definition py_split :: "pystr \<Rightarrow> pystr list" where
  "py_split s = split_from [] s"

text \<open>
  \<open>int(s)\<close> on a string: surrounding whitespace is stripped, one sign is allowed,
  the digits are decimal digits of any script, and single underscores may stand
  between digits. \<open>int_body\<close> returns the value and the number of digits read.
  CPython compares the number of digits with \<open>max_str_digits\<close> only when there are
  more than 640 of them (the limit is 0 or at least 640). \<open>None\<close> is the
  \<open>ValueError\<close>.
\<close>

fun int_body :: "platform \<Rightarrow> pystr \<Rightarrow> bool \<Rightarrow> int \<Rightarrow> int \<Rightarrow> (int \<times> int) option" where
  "int_body P [] after_digit acc n = (if after_digit then Some (acc, n) else None)"
| "int_body P (c # cs) after_digit acc n =
     (case digit_value P c of
        Some v \<Rightarrow> int_body P cs True (acc * 10 + v) (n + 1)
      | None \<Rightarrow> if c = 95 \<and> after_digit then int_body P cs False acc n else None)"

definition within_limit :: "platform \<Rightarrow> int \<Rightarrow> bool" where
  "within_limit P n = (n \<le> 640 \<or> max_str_digits P = 0 \<or> n \<le> int (max_str_digits P))"

definition py_int :: "platform \<Rightarrow> pystr \<Rightarrow> int option" where
  "py_int P s =
     (case py_strip s of
        [] \<Rightarrow> None
      | c # cs \<Rightarrow>
          (case (if c = 45 then map_option (\<lambda>(v, n). (- v, n)) (int_body P cs False 0 0)
                 else if c = 43 then int_body P cs False 0 0
                 else int_body P (c # cs) False 0 0) of
             None \<Rightarrow> None
           | Some (v, n) \<Rightarrow> if within_limit P n then Some v else None))"

text \<open>\<open>str(n)\<close> for an integer, and the format \<open>{n:02d}\<close>.\<close>

fun str_nat :: "nat \<Rightarrow> pystr" where
  "str_nat n = (if n < 10 then [48 + int n] else str_nat (n div 10) @ [48 + int (n mod 10)])"

declare str_nat.simps [simp del]

definition str_int :: "int \<Rightarrow> pystr" where
  "str_int i = (if i < 0 then 45 # str_nat (nat (- i)) else str_nat (nat i))"

definition format_02d :: "int \<Rightarrow> pystr" where
  "format_02d i = (let s = str_int i in replicate (2 - length s) 48 @ s)"

section \<open>Regular expressions\<close>

text \<open>
  The sources use the \<open>re\<close> module with literals, \<open>.\<close>, character classes, \<open>\s\<close>,
  \<open>\d\<close>, \<open>^\<close>, \<open>$\<close>, capturing groups, alternation and the greedy repetitions
  \<open>*\<close>, \<open>+\<close> and \<open>{n,}\<close>. A pattern is a syntax tree; \<open>x+\<close> is \<open>x\<close> followed by
  \<open>x*\<close>, and \<open>x{n,}\<close> is \<open>n\<close> copies of \<open>x\<close> followed by \<open>x*\<close>. A group carries its
  number (groups are numbered by their opening parenthesis; a named group is used
  by its number).
\<close>

datatype rx =
    Lit int
  | Dot
  | Cls bool "(int \<times> int) list"
  | Space
  | Digit
  | Bol
  | Eol
  | Eps
  | Seq rx rx
  | Alt rx rx
  | Star rx
  | Grp nat rx

definition L :: "char \<Rightarrow> rx" where
  "L c = Lit (of_char c)"

definition seqs :: "rx list \<Rightarrow> rx" where
  "seqs rs = foldr Seq rs Eps"

fun alts :: "rx list \<Rightarrow> rx" where
  "alts [] = Eps"
| "alts [r] = r"
| "alts (r # r' # rs) = Alt r (alts (r' # rs))"

definition lits :: "pystr \<Rightarrow> rx" where
  "lits s = seqs (map Lit s)"

definition plus :: "rx \<Rightarrow> rx" where
  "plus r = Seq r (Star r)"

fun at_least :: "nat \<Rightarrow> rx \<Rightarrow> rx" where
  "at_least 0 r = Star r"
| "at_least (Suc n) r = Seq r (at_least n r)"

fun ngroups :: "rx \<Rightarrow> nat" where
  "ngroups (Seq a b) = max (ngroups a) (ngroups b)"
| "ngroups (Alt a b) = max (ngroups a) (ngroups b)"
| "ngroups (Star a) = ngroups a"
| "ngroups (Grp n a) = max n (ngroups a)"
| "ngroups r = 0"

text \<open>
  Matching is backtracking search. A state is the text still to be read and the
  groups captured so far (latest first); \<open>go\<close> returns every state in which the
  pattern can end, in the order in which the backtracking matcher tries them:
  the left alternative before the right one, one more iteration of a repetition
  before leaving it. An iteration that reads nothing is not repeated.
  With \<open>IGNORECASE\<close> (\<open>ic\<close>) a literal matches the characters that are equal to
  it but for case (\<open>ic_eq\<close>: below U+0100, the characters with the same lower-case
  form), and a class matches a character that one of its members matches.
\<close>

type_synonym mstate = "pystr \<times> (nat \<times> pystr) list"

definition ic_eq :: "platform \<Rightarrow> int \<Rightarrow> int \<Rightarrow> bool" where
  "ic_eq P c x =
     (if c \<le> 255 \<and> x \<le> 255 then lower_latin1 c = lower_latin1 x else fold_high P c x)"

definition chr_eq :: "platform \<Rightarrow> bool \<Rightarrow> int \<Rightarrow> int \<Rightarrow> bool" where
  "chr_eq P ic c x = (if ic then ic_eq P c x else x = c)"

definition in_ranges :: "(int \<times> int) list \<Rightarrow> int \<Rightarrow> bool" where
  "in_ranges rs x = list_ex (\<lambda>(lo, hi). lo \<le> x \<and> x \<le> hi) rs"

definition cls_ok :: "platform \<Rightarrow> bool \<Rightarrow> bool \<Rightarrow> (int \<times> int) list \<Rightarrow> int \<Rightarrow> bool" where
  "cls_ok P ic neg rs x =
     ((in_ranges rs x \<or>
       (ic \<and> list_ex (\<lambda>(lo, hi). list_ex (\<lambda>c. ic_eq P c x) [lo..hi]) rs)) \<noteq> neg)"

definition step1 :: "(int \<Rightarrow> bool) \<Rightarrow> mstate \<Rightarrow> mstate list" where
  "step1 P st = (case fst st of [] \<Rightarrow> [] | x # xs \<Rightarrow> if P x then [(xs, snd st)] else [])"

fun go :: "platform \<Rightarrow> bool \<Rightarrow> pystr \<Rightarrow> rx \<Rightarrow> mstate \<Rightarrow> mstate list" where
  "go P ic text (Lit c) st = step1 (chr_eq P ic c) st"
| "go P ic text Dot st = step1 (\<lambda>x. x \<noteq> 10) st"
| "go P ic text (Cls neg rs) st = step1 (cls_ok P ic neg rs) st"
| "go P ic text Space st = step1 is_space st"
| "go P ic text Digit st = step1 (is_digit P) st"
| "go P ic text Bol st = (if length (fst st) = length text then [st] else [])"
| "go P ic text Eol st = (if fst st = [] \<or> fst st = [10] then [st] else [])"
| "go P ic text Eps st = [st]"
| "go P ic text (Seq a b) st = concat (map (go P ic text b) (go P ic text a st))"
| "go P ic text (Alt a b) st = go P ic text a st @ go P ic text b st"
| "go P ic text (Star a) st =
     concat (map (go P ic text (Star a))
                 (filter (\<lambda>st'. length (fst st') < length (fst st)) (go P ic text a st)))
     @ [st]"
| "go P ic text (Grp n a) st =
     map (\<lambda>st'. (fst st', (n, take (length (fst st) - length (fst st')) (fst st)) # snd st'))
         (go P ic text a st)"

text \<open>
  The equation of \<open>Star\<close> calls itself under the list functions; it is used by
  name, not as a rewrite rule.
\<close>

declare go.simps(11) [simp del]

lemma step1_shorter: "st' \<in> set (step1 P st) \<Longrightarrow> length (fst st') < length (fst st)"
  by (cases st) (auto simp: step1_def split: list.splits if_splits)

lemma go_shorter: "st' \<in> set (go P ic s r st) \<Longrightarrow> length (fst st') \<le> length (fst st)"
proof (induction P ic s r st arbitrary: st' rule: go.induct)
  case (1 P ic s c st)
  then show ?case using step1_shorter[of st' "chr_eq P ic c" st] by simp
next
  case (2 P ic s st)
  then show ?case using step1_shorter[of st' "\<lambda>x. x \<noteq> 10" st] by simp
next
  case (3 P ic s neg rs st)
  then show ?case using step1_shorter[of st' "cls_ok P ic neg rs" st] by simp
next
  case (4 P ic s st)
  then show ?case using step1_shorter[of st' is_space st] by simp
next
  case (5 P ic s st)
  then show ?case using step1_shorter[of st' "is_digit P" st] by simp
next
  case (6 P ic s st)
  then show ?case by (simp split: if_splits)
next
  case (7 P ic s st)
  then show ?case by (simp split: if_splits)
next
  case (8 P ic s st)
  then show ?case by simp
next
  case (9 P ic s a b st)
  from 9(3) obtain x where x: "x \<in> set (go P ic s a st)" and st': "st' \<in> set (go P ic s b x)"
    by auto
  from 9(1)[OF x] 9(2)[OF x st'] show ?case by simp
next
  case (10 P ic s a b st)
  from 10(3) have "st' \<in> set (go P ic s a st) \<or> st' \<in> set (go P ic s b st)" by simp
  then show ?case using 10(1)[of st'] 10(2)[of st'] by blast
next
  case (11 P ic s a st)
  from 11(3) have "st' \<in> set (concat (map (go P ic s (Star a))
                 (filter (\<lambda>st'. length (fst st') < length (fst st)) (go P ic s a st))) @ [st])"
    by (simp only: go.simps(11))
  then consider "st' = st"
    | x where "x \<in> set (go P ic s a st)" "length (fst x) < length (fst st)"
        "st' \<in> set (go P ic s (Star a) x)"
    by auto
  then show ?case
  proof cases
    case 1
    then show ?thesis by simp
  next
    case 2
    from 11(2)[of x st'] 2 show ?thesis by simp
  qed
next
  case (12 P ic s n a st)
  from 12(2) obtain x where "x \<in> set (go P ic s a st)" "fst st' = fst x" by auto
  with 12(1)[of x] show ?case by simp
qed

text \<open>
  A match object: start and end offsets, the matched text (\<open>group(0)\<close>) and
  \<open>groups()\<close>, where a group that took no part in the match is \<open>None\<close>.
\<close>

record pymatch =
  m_start :: nat
  m_end :: nat
  m_text :: pystr
  m_groups :: "pystr option list"

text \<open>A compiled pattern: the \<open>IGNORECASE\<close> flag and the syntax tree.\<close>

type_synonym regex = "bool \<times> rx"

definition mk_match :: "rx \<Rightarrow> pystr \<Rightarrow> pystr \<Rightarrow> mstate \<Rightarrow> pymatch" where
  "mk_match r text rest st =
     \<lparr> m_start = length text - length rest,
       m_end = length text - length (fst st),
       m_text = take (length rest - length (fst st)) rest,
       m_groups = map (\<lambda>i. map_of (snd st) i) [1 ..< Suc (ngroups r)] \<rparr>"

text \<open>
  One attempt at the position where \<open>rest\<close> begins: the first end state wins. The
  scanner of \<open>finditer\<close>, \<open>split\<close> and \<open>sub\<close> sets \<open>must_advance\<close> after an empty
  match; the attempt at the same position then refuses an empty match.
\<close>

definition match_here :: "platform \<Rightarrow> regex \<Rightarrow> pystr \<Rightarrow> bool \<Rightarrow> pystr \<Rightarrow> pymatch option" where
  "match_here P c text must_advance rest =
     map_option (mk_match (snd c) text rest)
       (find (\<lambda>st. \<not> (must_advance \<and> length (fst st) = length rest))
             (go P (fst c) text (snd c) (rest, [])))"

fun search_from :: "platform \<Rightarrow> regex \<Rightarrow> pystr \<Rightarrow> bool \<Rightarrow> pystr \<Rightarrow> pymatch option" where
  "search_from P c text must_advance [] = match_here P c text must_advance []"
| "search_from P c text must_advance (x # xs) =
     (case match_here P c text must_advance (x # xs) of
        Some m \<Rightarrow> Some m
      | None \<Rightarrow> search_from P c text False xs)"

definition re_match :: "platform \<Rightarrow> regex \<Rightarrow> pystr \<Rightarrow> pymatch option" where
  "re_match P c s = match_here P c s False s"

definition re_search :: "platform \<Rightarrow> regex \<Rightarrow> pystr \<Rightarrow> pymatch option" where
  "re_search P c s = search_from P c s False s"

text \<open>\<open>m.group(i)\<close> for \<open>i \<ge> 1\<close>; \<open>None\<close> when the group took no part.\<close>

definition group :: "pymatch \<Rightarrow> nat \<Rightarrow> pystr option" where
  "group m i = (if 1 \<le> i \<and> i \<le> length (m_groups m) then m_groups m ! (i - 1) else None)"

text \<open>
  The scanner behind \<open>finditer\<close>, \<open>split\<close> and \<open>sub\<close>: search from the end of the
  previous match, with \<open>must_advance\<close> set when that match was empty. It terminates
  because a match never ends before the position the search started from.
\<close>

lemma find_SomeD: "find P xs = Some x \<Longrightarrow> x \<in> set xs \<and> P x"
  by (induction xs) (auto split: if_splits)

lemma match_here_bounds:
  assumes "match_here P c s ma rest = Some m"
  shows "\<exists>k. k \<le> length rest \<and> m_start m = length s - length rest \<and>
             m_end m = length s - k \<and> \<not> (ma \<and> k = length rest)"
proof -
  from assms obtain st where st: "find (\<lambda>st. \<not> (ma \<and> length (fst st) = length rest))
             (go P (fst c) s (snd c) (rest, [])) = Some st" and m: "m = mk_match (snd c) s rest st"
    by (auto simp: match_here_def)
  from find_SomeD[OF st] have mem: "st \<in> set (go P (fst c) s (snd c) (rest, []))"
    and nz: "\<not> (ma \<and> length (fst st) = length rest)" by blast+
  from go_shorter[OF mem] have le: "length (fst st) \<le> length rest" by simp
  have ms: "m_start m = length s - length rest" unfolding m mk_match_def by simp
  have me: "m_end m = length s - length (fst st)" unfolding m mk_match_def by simp
  show ?thesis
    by (rule exI[of _ "length (fst st)"]) (intro conjI le ms me nz)
qed

lemma search_from_bounds:
  "search_from P c s ma rest = Some m \<Longrightarrow>
     \<exists>k. k \<le> length rest \<and> m_end m = length s - k \<and>
         (k = length rest \<longrightarrow> \<not> ma \<and> m_start m = length s - length rest)"
proof (induction rest arbitrary: ma)
  case Nil
  then show ?case using match_here_bounds[of P c s ma "[]" m] by auto
next
  case (Cons x xs)
  show ?case
  proof (cases "match_here P c s ma (x # xs)")
    case None
    with Cons.prems have "search_from P c s False xs = Some m" by simp
    from Cons.IH[OF this] obtain k where "k \<le> length xs" "m_end m = length s - k"
      by auto
    then have "k \<le> length (x # xs) \<and> m_end m = length s - k \<and>
         (k = length (x # xs) \<longrightarrow> \<not> ma \<and> m_start m = length s - length (x # xs))" by simp
    then show ?thesis by (rule exI[of _ k])
  next
    case (Some m')
    with Cons.prems have "m' = m" by simp
    with Some match_here_bounds[of P c s ma "x # xs" m] show ?thesis by auto
  qed
qed

lemma scan_measure_aux:
  fixes k n e st len :: nat
  assumes "k \<le> n" and "e = len - k" and "k = n \<longrightarrow> \<not> ma \<and> st = len - n"
  shows "2 * (len - e) + (if e = st then 0 else 1) < 2 * n + (if ma then 0 else 1)"
proof (cases "k = n")
  case True
  with assms(3) have "\<not> ma" and "st = len - n" by blast+
  with assms(2) True have "e = st" by simp
  have "len - e \<le> n" using assms(2) True by simp
  with \<open>\<not> ma\<close> \<open>e = st\<close> show ?thesis by simp
next
  case False
  with assms(1) have "k < n" by simp
  moreover have "len - e \<le> k" using assms(2) by simp
  ultimately have "2 * (len - e) + 1 < 2 * n" by linarith
  moreover have "(if e = st then 0 else 1) \<le> (1::nat)" by simp
  ultimately show ?thesis by linarith
qed

function scan :: "platform \<Rightarrow> regex \<Rightarrow> pystr \<Rightarrow> bool \<Rightarrow> pystr \<Rightarrow> pymatch list" where
  "scan P c text must_advance rest =
     (case search_from P c text must_advance rest of
        None \<Rightarrow> []
      | Some m \<Rightarrow> m # scan P c text (m_end m = m_start m) (drop (m_end m) text))"
  by pat_completeness auto
termination
proof (relation "measure (\<lambda>(P, c, s, ma, rest). 2 * length rest + (if ma then 0 else 1))", goal_cases)
  case 1
  show ?case by (rule wf_measure)
next
  case (2 P c s ma rest m)
  from search_from_bounds[OF 2] obtain k where
    k: "k \<le> length rest \<and> m_end m = length s - k \<and>
         (k = length rest \<longrightarrow> \<not> ma \<and> m_start m = length s - length rest)" ..
  have "2 * (length s - m_end m) + (if m_end m = m_start m then 0 else 1)
          < 2 * length rest + (if ma then 0 else (1::nat))"
    by (rule scan_measure_aux[of k]) (intro k[THEN conjunct1] k[THEN conjunct2, THEN conjunct1]
          k[THEN conjunct2, THEN conjunct2])+
  then show ?case by (simp only: in_measure case_prod_conv length_drop)
qed

declare scan.simps [simp del]

definition scan_next :: "platform \<Rightarrow> regex \<Rightarrow> pystr \<Rightarrow> pymatch option \<Rightarrow> pymatch list" where
  "scan_next P c text mo =
     (case mo of None \<Rightarrow> [] | Some m \<Rightarrow> m # scan P c text (m_end m = m_start m) (drop (m_end m) text))"

lemma scan_code [code]: "scan P c s ma rest = scan_next P c s (search_from P c s ma rest)"
  by (simp add: scan_next_def scan.simps[of P c s ma rest])

lemma scan_next_code [code]:
  "scan_next P c s None = []"
  "scan_next P c s (Some m) = m # scan P c s (m_end m = m_start m) (drop (m_end m) s)"
  by (simp_all add: scan_next_def)

definition finditer :: "platform \<Rightarrow> regex \<Rightarrow> pystr \<Rightarrow> pymatch list" where
  "finditer P c s = scan P c s False s"

fun pieces :: "pystr \<Rightarrow> nat \<Rightarrow> pymatch list \<Rightarrow> pystr list" where
  "pieces s prev [] = [drop prev s]"
| "pieces s prev (m # ms) = take (m_start m - prev) (drop prev s) # pieces s (m_end m) ms"

definition re_split :: "platform \<Rightarrow> regex \<Rightarrow> pystr \<Rightarrow> pystr list" where
  "re_split P c s = pieces s 0 (finditer P c s)"

definition re_sub :: "platform \<Rightarrow> regex \<Rightarrow> pystr \<Rightarrow> pystr \<Rightarrow> pystr" where
  "re_sub P c repl s = py_join repl (pieces s 0 (finditer P c s))"

section \<open>Values and failures\<close>

text \<open>
  The values that the scripts pass around: what \<open>json.loads\<close> returns, and a
  compiled pattern stored in a pattern's dict. A float is a finite \<open>m * 2 ^ e\<close>, an
  infinity or a NaN. A compiled pattern is known by its source and its
  \<open>IGNORECASE\<close> flag. A dict is an association list in insertion order; \<open>d[k] = v\<close>
  replaces the value in place or appends the key.
\<close>

datatype pyfloat = Finite int int | PosInf | NegInf | NaN

datatype pyval =
    PNone
  | PBool bool
  | PInt int
  | PFloat pyfloat
  | PStr pystr
  | PList "pyval list"
  | PDict "(pystr \<times> pyval) list"
  | PRegex pystr bool

datatype error =
    ValueError string
  | KeyError pystr
  | TypeError
  | AttributeError
  | ReError pystr
  | Unmodelled

type_synonym ('k, 'v) dict = "('k \<times> 'v) list"

definition dict_get :: "('k, 'v) dict \<Rightarrow> 'k \<Rightarrow> 'v option" where
  "dict_get d k = map_of d k"

definition dict_set :: "('k, 'v) dict \<Rightarrow> 'k \<Rightarrow> 'v \<Rightarrow> ('k, 'v) dict" where
  "dict_set d k v = AList.update k v d"

text \<open>\<open>d.get(k, default)\<close>.\<close>

definition dict_get_default :: "('k, 'v) dict \<Rightarrow> 'k \<Rightarrow> 'v \<Rightarrow> 'v" where
  "dict_get_default d k v = (case dict_get d k of None \<Rightarrow> v | Some x \<Rightarrow> x)"

text \<open>Running a function over a list stops at the first failure, as the exception does.\<close>

fun map_result :: "('a \<Rightarrow> error + 'b) \<Rightarrow> 'a list \<Rightarrow> error + 'b list" where
  "map_result f [] = Inr []"
| "map_result f (x # xs) =
     (case f x of
        Inl e \<Rightarrow> Inl e
      | Inr y \<Rightarrow> (case map_result f xs of Inl e \<Rightarrow> Inl e | Inr ys \<Rightarrow> Inr (y # ys)))"

section \<open>The parser: \<open>parse_questions.py\<close>\<close>

subsection \<open>The patterns\<close>

text \<open>
  \<^verbatim>\<open>OPTION_RE = ^([A-Z])\)\s*(.+)$\<close>

  \<^verbatim>\<open>HEADER_RE = Pregunta\s+(?P<number>\d+)\s*\((?P<label>[^)]+)\):\<close>, \<open>IGNORECASE\<close>

  \<^verbatim>\<open>META_RE = ^(?P<key>Area|Area|Tema|Subtema|Subtema especifico|Subtema especifico):\s*(?P<value>.+)$\<close>,
  \<open>IGNORECASE\<close>, where the first \<open>Area\<close> begins with U+00C1 and the first
  \<open>especifico\<close> has U+00ED for its first \<open>i\<close>.

  The pattern of the answer line is
  \<^verbatim>\<open>Respuesta correcta:\s*([A-Z])\)\s*(.+)$\<close>, \<open>IGNORECASE\<close>; blocks are split at
  \<^verbatim>\<open>\n+-{10,}\n+\<close>, where the dash is U+2500; \<open>normalize_spaces\<close> replaces
  \<^verbatim>\<open>\s+\<close>.
\<close>

definition OPTION_RE :: regex where
  "OPTION_RE =
     (False, seqs [Bol, Grp 1 (Cls False [(65, 90)]), L CHR '')'', Star Space,
                   Grp 2 (plus Dot), Eol])"

definition HEADER_RE :: regex where
  "HEADER_RE =
     (True, seqs [lits (U ''Pregunta''), plus Space, Grp 1 (plus Digit), Star Space,
                  L CHR ''('', Grp 2 (plus (Cls True [(41, 41)])), L CHR '')'', L CHR '':''])"

definition META_RE :: regex where
  "META_RE =
     (True, seqs [Bol,
                  Grp 1 (alts [lits (193 # U ''rea''), lits (U ''Area''), lits (U ''Tema''),
                               lits (U ''Subtema''),
                               lits (U ''Subtema espec'' @ 237 # U ''fico''),
                               lits (U ''Subtema especifico'')]),
                  L CHR '':'', Star Space, Grp 2 (plus Dot), Eol])"

definition ANSWER_RE :: regex where
  "ANSWER_RE =
     (True, seqs [lits (U ''Respuesta correcta:''), Star Space, Grp 1 (Cls False [(65, 90)]),
                  L CHR '')'', Star Space, Grp 2 (plus Dot), Eol])"

definition SPLIT_RE :: regex where
  "SPLIT_RE = (False, seqs [plus (Lit 10), at_least 10 (Lit 9472), plus (Lit 10)])"

definition SPACES_RE :: regex where
  "SPACES_RE = (False, plus Space)"

text \<open>
  The text of group \<open>i\<close> of a match. In the patterns above every group takes part
  in every match, so the value \<open>None\<close> of \<open>group\<close> does not occur; it reads as the
  empty string.
\<close>

definition grp :: "pymatch \<Rightarrow> nat \<Rightarrow> pystr" where
  "grp m i = (case group m i of None \<Rightarrow> [] | Some t \<Rightarrow> t)"

subsection \<open>The records\<close>

record answer_option =
  ao_id :: pystr
  ao_text :: pystr
  linked_entity :: "pystr option"

record question =
  q_id :: pystr
  source_exam :: pystr
  year :: "int option"
  number :: int
  domain :: "pystr option"
  topic :: "pystr option"
  subtopic :: "pystr option"
  focus :: "pystr option"
  stem :: pystr
  options :: "answer_option list"
  answer_key :: pystr
  answer_text :: pystr
  clinical_entities :: "pyval list"
  reasoning_tags :: "pystr list"
  metadata :: "(pystr, pystr) dict"

subsection \<open>\<open>normalize_spaces\<close> and \<open>parse_header\<close>\<close>

definition normalize_spaces :: "platform \<Rightarrow> pystr \<Rightarrow> pystr" where
  "normalize_spaces P text = py_strip (re_sub P SPACES_RE (U '' '') text)"

text \<open>
  \<open>parse_header\<close> returns \<open>(number, exam, year)\<close> (\<open>num\<close> and \<open>yr\<close> below). The number
  is a run of decimal digits, so the one \<open>ValueError\<close> that its \<open>int\<close> can raise is
  that of the digit limit (the message is abridged). The \<open>int\<close> of the last token
  of the label is tried; its \<open>ValueError\<close> is caught and leaves the whole label as
  the exam.
\<close>

definition parse_header :: "platform \<Rightarrow> pystr \<Rightarrow> error + (int \<times> pystr \<times> int option)" where
  "parse_header P line =
     (case re_match P HEADER_RE line of
        None \<Rightarrow> Inl (ValueError ''No se pudo interpretar el encabezado'')
      | Some m \<Rightarrow>
          (case py_int P (grp m 1) of
             None \<Rightarrow> Inl (ValueError ''Exceeds the limit for integer string conversion'')
           | Some num \<Rightarrow>
               (let label = py_strip (grp m 2);
                    tokens = py_split label;
                    (yr, exam) =
                      (if tokens \<noteq> [] then
                         (case py_int P (last tokens) of
                            Some y \<Rightarrow>
                              (Some y,
                               (let j = py_join (U '' '') (butlast tokens)
                                in if j \<noteq> [] then j else last tokens))
                          | None \<Rightarrow> (None, label))
                       else (None, label))
                in Inr (num, py_strip exam, yr))))"

subsection \<open>\<open>parse_chunk\<close>\<close>

text \<open>
  The lines of a block: blank lines are dropped and the others are stripped on
  the right (line 66 of the source).
\<close>

definition chunk_lines :: "pystr \<Rightarrow> pystr list" where
  "chunk_lines chunk =
     map py_rstrip
       (filter (\<lambda>ln. py_strip ln \<noteq> [] \<or> py_startswith ln (U ''Pregunta''))
               (py_splitlines chunk))"

definition is_header :: "platform \<Rightarrow> pystr \<Rightarrow> bool" where
  "is_header P ln = py_startswith (py_lower P ln) (U ''pregunta'')"

definition is_answer :: "platform \<Rightarrow> pystr \<Rightarrow> bool" where
  "is_answer P ln = py_startswith (py_lower P ln) (U ''respuesta correcta'')"

text \<open>\<open>xs.index(x)\<close> for an element of \<open>xs\<close>.\<close>

definition index_of :: "'a \<Rightarrow> 'a list \<Rightarrow> nat" where
  "index_of x xs = length (takeWhile (\<lambda>y. y \<noteq> x) xs)"

text \<open>The loop of lines 74 to 82: metadata lines, up to the first line that is none.\<close>

function meta_loop ::
  "platform \<Rightarrow> pystr list \<Rightarrow> nat \<Rightarrow> (pystr, pystr) dict \<Rightarrow> (pystr, pystr) dict \<times> nat" where
  "meta_loop P lines idx meta =
     (if idx < length lines then
        (case re_match P META_RE (py_strip (lines ! idx)) of
           None \<Rightarrow> (meta, idx)
         | Some m \<Rightarrow>
             meta_loop P lines (idx + 1)
               (dict_set meta (py_lower P (grp m 1)) (py_strip (grp m 2))))
      else (meta, idx))"
  by pat_completeness auto
termination
  by (relation "measure (\<lambda>(P, lines, idx, meta). length lines - idx)") auto

declare meta_loop.simps [simp del]

text \<open>The loop of lines 84 and 85: blank lines are skipped.\<close>

function skip_blank :: "pystr list \<Rightarrow> nat \<Rightarrow> nat" where
  "skip_blank lines idx =
     (if idx < length lines \<and> py_strip (lines ! idx) = [] then skip_blank lines (idx + 1)
      else idx)"
  by pat_completeness auto
termination
  by (relation "measure (\<lambda>(lines, idx). length lines - idx)") auto

declare skip_blank.simps [simp del]

text \<open>The loop of lines 89 to 91: the stem, up to the first option line.\<close>

function stem_loop :: "platform \<Rightarrow> pystr list \<Rightarrow> nat \<Rightarrow> pystr list \<Rightarrow> pystr list \<times> nat" where
  "stem_loop P lines idx stem_lines =
     (if idx < length lines \<and> re_match P OPTION_RE (py_strip (lines ! idx)) = None then
        stem_loop P lines (idx + 1) (stem_lines @ [lines ! idx])
      else (stem_lines, idx))"
  by pat_completeness auto
termination
  by (relation "measure (\<lambda>(P, lines, idx, stem_lines). length lines - idx)") auto

declare stem_loop.simps [simp del]

text \<open>
  The loop of lines 95 to 103: the options, up to the answer line; a line that is
  no option is skipped.
\<close>

function options_loop ::
  "platform \<Rightarrow> pystr list \<Rightarrow> nat \<Rightarrow> answer_option list \<Rightarrow> answer_option list" where
  "options_loop P lines idx opts =
     (if idx < length lines then
        (let line = py_strip (lines ! idx) in
         if is_answer P line then opts
         else
           (case re_match P OPTION_RE line of
              Some m \<Rightarrow>
                options_loop P lines (idx + 1)
                  (opts @ [\<lparr> ao_id = grp m 1, ao_text = py_strip (grp m 2),
                              linked_entity = None \<rparr>])
            | None \<Rightarrow> options_loop P lines (idx + 1) opts))
      else opts)"
  by pat_completeness auto
termination
  by (relation "measure (\<lambda>(P, lines, idx, opts). length lines - idx)") auto

declare options_loop.simps [simp del]

text \<open>Lines 105 to 112: the answer, from the first line that begins with the marker.\<close>

definition parse_answer :: "platform \<Rightarrow> pystr list \<Rightarrow> pystr \<times> pystr" where
  "parse_answer P lines =
     (case find (is_answer P) lines of
        None \<Rightarrow> ([], [])
      | Some answer_line \<Rightarrow>
          (case re_search P ANSWER_RE answer_line of
             None \<Rightarrow> ([], [])
           | Some m \<Rightarrow> (py_upper P (grp m 1), py_strip (grp m 2))))"

text \<open>
  Line 114: the identifier. \<open>exam or 'EXAM'\<close> and \<open>year or 'XXXX'\<close> take the second
  value when the first is empty, \<open>None\<close> or zero.
\<close>

definition question_id :: "platform \<Rightarrow> pystr \<Rightarrow> int option \<Rightarrow> int \<Rightarrow> pystr" where
  "question_id P exam yr num =
     py_upper P (filter (\<lambda>c. c \<noteq> 32) (if exam \<noteq> [] then exam else U ''EXAM''))
     @ U ''-''
     @ (case yr of
          None \<Rightarrow> U ''XXXX''
        | Some y \<Rightarrow> if y \<noteq> 0 then str_int y else U ''XXXX'')
     @ U ''-''
     @ format_02d num"

text \<open>\<open>a or b\<close> for two optional strings.\<close>

definition or_else :: "pystr option \<Rightarrow> pystr option \<Rightarrow> pystr option" where
  "or_else a b = (case a of None \<Rightarrow> b | Some v \<Rightarrow> if v \<noteq> [] then Some v else b)"

definition key_area_accent :: pystr where
  "key_area_accent = 225 # U ''rea''"

definition key_focus_accent :: pystr where
  "key_focus_accent = U ''subtema espec'' @ 237 # U ''fico''"

text \<open>Lines 115 to 118: the tags, without the empty string, sorted.\<close>

definition make_tags :: "platform \<Rightarrow> (pystr, pystr) dict \<Rightarrow> pystr list" where
  "make_tags P meta =
     sort (remdups (filter (\<lambda>t. t \<noteq> [])
       [normalize_spaces P (dict_get_default meta (U ''subtema'') []),
        normalize_spaces P
          (dict_get_default meta key_focus_accent
             (dict_get_default meta (U ''subtema especifico'') []))]))"

definition parse_chunk :: "platform \<Rightarrow> pystr \<Rightarrow> error + question" where
  "parse_chunk P chunk =
     (let lines = chunk_lines chunk in
      case find (is_header P) lines of
        None \<Rightarrow> Inl (ValueError ''Bloque sin encabezado de pregunta'')
      | Some header_line \<Rightarrow>
          (case parse_header P header_line of
             Inl e \<Rightarrow> Inl e
           | Inr (num, exam, yr) \<Rightarrow>
               (let (meta, idx1) = meta_loop P lines (index_of header_line lines + 1) [];
                    idx2 = skip_blank lines idx1;
                    (stem_lines, idx3) = stem_loop P lines idx2 [];
                    (key, text) = parse_answer P lines
                in Inr \<lparr> q_id = question_id P exam yr num,
                         source_exam = exam,
                         year = yr,
                         number = num,
                         domain = or_else (dict_get meta key_area_accent)
                                          (dict_get meta (U ''area'')),
                         topic = dict_get meta (U ''tema''),
                         subtopic = dict_get meta (U ''subtema''),
                         focus = or_else (dict_get meta key_focus_accent)
                                         (dict_get meta (U ''subtema especifico'')),
                         stem = py_strip (py_join [10] (map py_strip stem_lines)),
                         options = options_loop P lines idx3 [],
                         answer_key = key,
                         answer_text = text,
                         clinical_entities = [],
                         reasoning_tags = make_tags P meta,
                         metadata = [(U ''raw_header'', header_line)] \<rparr>)))"

subsection \<open>\<open>parse_file\<close>\<close>

text \<open>
  \<open>raw_chunks\<close> of line 142, from the text of the file; one block that fails makes
  the whole file fail.
\<close>

definition raw_chunks :: "platform \<Rightarrow> pystr \<Rightarrow> pystr list" where
  "raw_chunks P text =
     map py_strip (filter (\<lambda>chunk. py_strip chunk \<noteq> []) (re_split P SPLIT_RE text))"

definition parse_file :: "platform \<Rightarrow> pystr \<Rightarrow> error + question list" where
  "parse_file P text = map_result (parse_chunk P) (raw_chunks P text)"

section \<open>The annotator: \<open>enrich_clinical_facts.py\<close>\<close>

text \<open>
  The patterns of the annotator come from a configuration file, so the whole
  syntax of the \<open>re\<close> module is open to them. The module is a parameter of the
  annotator: \<open>re_valid source\<close> says whether \<open>re.compile\<close> accepts the source, and
  \<open>re_finditer source ignorecase text\<close> is the list of the matches that \<open>finditer\<close>
  of the compiled pattern yields on the text, in the order in which it yields
  them. Nothing is assumed about either.
\<close>

record re_module =
  re_valid :: "pystr \<Rightarrow> bool"
  re_finditer :: "pystr \<Rightarrow> bool \<Rightarrow> pystr \<Rightarrow> pymatch list"

text \<open>
  Truth of a value (\<open>x or y\<close>, \<open>x and y\<close>), and \<open>dict(x)\<close>. \<open>dict\<close> of a non-empty
  list (an iterable of key and value pairs) is outside this model.
\<close>

fun float_zero :: "pyfloat \<Rightarrow> bool" where
  "float_zero (Finite m e) = (m = 0)"
| "float_zero f = False"

fun truthy :: "pyval \<Rightarrow> bool" where
  "truthy PNone = False"
| "truthy (PBool b) = b"
| "truthy (PInt i) = (i \<noteq> 0)"
| "truthy (PFloat f) = (\<not> float_zero f)"
| "truthy (PStr s) = (s \<noteq> [])"
| "truthy (PList xs) = (xs \<noteq> [])"
| "truthy (PDict d) = (d \<noteq> [])"
| "truthy (PRegex source ic) = True"

fun py_dict :: "pyval \<Rightarrow> error + (pystr, pyval) dict" where
  "py_dict (PDict d) = Inr d"
| "py_dict (PList []) = Inr []"
| "py_dict (PList (x # xs)) = Inl Unmodelled"
| "py_dict (PStr []) = Inr []"
| "py_dict (PStr (c # cs)) = Inl (ValueError ''dictionary update sequence element'')"
| "py_dict v = Inl TypeError"

subsection \<open>\<open>load_patterns\<close>\<close>

text \<open>
  The body of the loop of \<open>load_patterns\<close> for one item of the list read from the
  configuration: \<open>item["regex"] = re.compile(item["pattern"], re.IGNORECASE)\<close>, and
  the loop. An exception leaves the function before \<open>return data\<close>.
\<close>

definition load_pattern :: "re_module \<Rightarrow> pyval \<Rightarrow> error + pyval" where
  "load_pattern R item =
     (case item of
        PDict d \<Rightarrow>
          (case dict_get d (U ''pattern'') of
             None \<Rightarrow> Inl (KeyError (U ''pattern''))
           | Some (PStr source) \<Rightarrow>
               if re_valid R source
               then Inr (PDict (dict_set d (U ''regex'') (PRegex source True)))
               else Inl (ReError source)
           | Some _ \<Rightarrow> Inl TypeError)
      | _ \<Rightarrow> Inl TypeError)"

definition load_patterns :: "re_module \<Rightarrow> pyval list \<Rightarrow> error + pyval list" where
  "load_patterns R data = map_result (load_pattern R) data"

subsection \<open>\<open>enrich_question\<close>\<close>

text \<open>Lines 24 to 32: the entity of one match of one pattern.\<close>

definition match_entity :: "(pystr, pyval) dict \<Rightarrow> pymatch \<Rightarrow> error + pyval" where
  "match_entity pattern m =
     (case py_dict (let a = dict_get_default pattern (U ''attributes'') PNone
                    in if truthy a then a else PDict []) of
        Inl e \<Rightarrow> Inl e
      | Inr attributes \<Rightarrow>
          (case dict_get pattern (U ''type'') of
             None \<Rightarrow> Inl (KeyError (U ''type''))
           | Some ty \<Rightarrow>
               (let attributes' =
                      (if ty = PStr (U ''timeline'') \<and> m_groups m \<noteq> [] then
                         dict_set attributes (U ''value'')
                           (case group m 1 of None \<Rightarrow> PNone | Some t \<Rightarrow> PStr t)
                       else attributes)
                in case dict_get pattern (U ''label'') of
                     None \<Rightarrow> Inl (KeyError (U ''label''))
                   | Some label \<Rightarrow>
                       Inr (PDict [(U ''type'', ty), (U ''value'', label),
                                   (U ''text_span'', PStr (m_text m)),
                                   (U ''attributes'', PDict attributes')]))))"

text \<open>The inner loop, over the matches of one pattern; \<open>entities.append(entity)\<close>.\<close>

fun match_loop :: "(pystr, pyval) dict \<Rightarrow> pymatch list \<Rightarrow> pyval \<Rightarrow> error + pyval" where
  "match_loop pattern [] entities = Inr entities"
| "match_loop pattern (m # ms) entities =
     (case match_entity pattern m of
        Inl e \<Rightarrow> Inl e
      | Inr entity \<Rightarrow>
          (case entities of
             PList es \<Rightarrow> match_loop pattern ms (PList (es @ [entity]))
           | _ \<Rightarrow> Inl AttributeError))"

text \<open>
  The outer loop, over the patterns: \<open>pattern["regex"].finditer(text)\<close> and the
  inner loop.
\<close>

fun pattern_loop :: "re_module \<Rightarrow> pyval list \<Rightarrow> pyval \<Rightarrow> pyval \<Rightarrow> error + pyval" where
  "pattern_loop R [] text entities = Inr entities"
| "pattern_loop R (pattern # patterns) text entities =
     (case pattern of
        PDict d \<Rightarrow>
          (case dict_get d (U ''regex'') of
             None \<Rightarrow> Inl (KeyError (U ''regex''))
           | Some (PRegex source ic) \<Rightarrow>
               (case text of
                  PStr s \<Rightarrow>
                    (case match_loop d (re_finditer R source ic s) entities of
                       Inl e \<Rightarrow> Inl e
                     | Inr entities' \<Rightarrow> pattern_loop R patterns text entities')
                | _ \<Rightarrow> Inl TypeError)
           | Some _ \<Rightarrow> Inl AttributeError)
      | _ \<Rightarrow> Inl TypeError)"

definition enrich_question ::
  "re_module \<Rightarrow> (pystr, pyval) dict \<Rightarrow> pyval list \<Rightarrow> error + (pystr, pyval) dict" where
  "enrich_question R question patterns =
     (let text = dict_get_default question (U ''stem'') (PStr []);
          found = dict_get_default question (U ''clinical_entities'') (PList []);
          entities = (if truthy found then found else PList [])
      in case pattern_loop R patterns text entities of
           Inl e \<Rightarrow> Inl e
         | Inr entities' \<Rightarrow> Inr (dict_set question (U ''clinical_entities'') entities'))"

subsection \<open>\<open>process\<close>\<close>

text \<open>
  From the two lists read from the input files to the list that is written:
  \<open>enrich_question(dict(q), patterns)\<close> for each question, in order.
\<close>

definition process ::
  "re_module \<Rightarrow> pyval list \<Rightarrow> pyval list \<Rightarrow> error + (pystr, pyval) dict list" where
  "process R questions data =
     (case load_patterns R data of
        Inl e \<Rightarrow> Inl e
      | Inr patterns \<Rightarrow>
          map_result
            (\<lambda>q. case py_dict q of Inl e \<Rightarrow> Inl e | Inr d \<Rightarrow> enrich_question R d patterns)
            questions)"

text \<open>The entities of a question: the list under \<open>clinical_entities\<close>, if there is one.\<close>

definition entities_of :: "(pystr, pyval) dict \<Rightarrow> pyval list" where
  "entities_of question =
     (case dict_get question (U ''clinical_entities'') of Some (PList es) \<Rightarrow> es | _ \<Rightarrow> [])"

section \<open>Examples\<close>

text \<open>
  The blocks below hold characters up to U+00FF only, so that what the parser
  returns for them is the same on every platform: the lemmas of this section are
  stated for every \<open>P\<close>. \<open>latin1\<close> is the platform whose tables end at U+00FF; it
  stands for \<open>P\<close> where a statement has to be closed.
\<close>

definition latin1 :: platform where
  "latin1 =
     \<lparr> upper_high = (\<lambda>c. [c]), lower_high = (\<lambda>c. [c]), final_sigma = (\<lambda>s i. False),
       fold_high = (\<lambda>c x. c = x), digit_high = (\<lambda>c. None), max_str_digits = 4300 \<rparr>"

definition example_block :: pystr where
  "example_block =
     U ''Pregunta 7 (ENARM 2023):'' @ [10] @ U ''Tema: Cardio'' @ [10] @ U ''Stem text'' @ [10] @
     U ''A) Foo'' @ [10] @ U ''B) Bar'' @ [10] @ U ''Respuesta correcta: B) Bar''"

definition example_question :: question where
  "example_question =
     \<lparr> q_id = U ''ENARM-2023-07'', source_exam = U ''ENARM'', year = Some 2023, number = 7,
       domain = None, topic = Some (U ''Cardio''), subtopic = None, focus = None,
       stem = U ''Stem text'',
       options = [\<lparr> ao_id = U ''A'', ao_text = U ''Foo'', linked_entity = None \<rparr>,
                  \<lparr> ao_id = U ''B'', ao_text = U ''Bar'', linked_entity = None \<rparr>],
       answer_key = U ''B'', answer_text = U ''Bar'', clinical_entities = [],
       reasoning_tags = [], metadata = [(U ''raw_header'', U ''Pregunta 7 (ENARM 2023):'')] \<rparr>"

lemma example_block_parsed: "parse_chunk P example_block = Inr example_question"
  by code_simp

text \<open>A header whose label is blank: the exam name is empty.\<close>

definition blank_label_block :: pystr where
  "blank_label_block = U ''Pregunta 1 ( ):''"

definition blank_label_question :: question where
  "blank_label_question =
     \<lparr> q_id = U ''EXAM-XXXX-01'', source_exam = [], year = None, number = 1,
       domain = None, topic = None, subtopic = None, focus = None, stem = [], options = [],
       answer_key = [], answer_text = [], clinical_entities = [], reasoning_tags = [],
       metadata = [(U ''raw_header'', U ''Pregunta 1 ( ):'')] \<rparr>"

lemma blank_label_block_parsed: "parse_chunk P blank_label_block = Inr blank_label_question"
  by code_simp

section \<open>The identifier\<close>

text \<open>
  The identifier as the specification words it: the exam name in upper case without
  spaces, the year or \<open>XXXX\<close> when there is none, and the number on two digits.
\<close>

definition spec_question_id :: "platform \<Rightarrow> pystr \<Rightarrow> int option \<Rightarrow> int \<Rightarrow> pystr" where
  "spec_question_id P exam yr num =
     py_upper P (filter (\<lambda>c. c \<noteq> 32) exam) @ U ''-''
     @ (case yr of None \<Rightarrow> U ''XXXX'' | Some y \<Rightarrow> str_int y)
     @ U ''-'' @ format_02d num"

lemma question_id_spec:
  "yr \<noteq> Some 0 \<Longrightarrow>
     question_id P exam yr num =
       spec_question_id P (if exam \<noteq> [] then exam else U ''EXAM'') yr num"
  by (cases yr) (simp_all add: question_id_def spec_question_id_def)

lemma parse_chunk_id:
  "parse_chunk P chunk = Inr q \<Longrightarrow>
     q_id q = question_id P (source_exam q) (year q) (number q)"
  by (auto simp: parse_chunk_def Let_def split: option.splits sum.splits prod.splits)

text \<open>
  C4, as the code has it. On every platform and for every parsed question the
  identifier is \<open>question_id\<close> of its exam name, year and number, a total function
  of the three. When the year is not zero it is: the exam name, or \<open>EXAM\<close> for
  an empty exam name, in upper case (\<open>str.upper\<close>, which below U+0100 is the
  Latin-1 table) without spaces, \<open>-\<close>, the year in decimal or \<open>XXXX\<close> when the year
  is absent, \<open>-\<close>, and the number padded with zeros to two digits.
  \<open>(ENARM, 2023, 7)\<close> gives \<open>ENARM-2023-07\<close> and \<open>(X Y, no year, 1)\<close> gives
  \<open>XY-XXXX-01\<close>.
\<close>

theorem question_id_derivation:
  "parse_chunk P chunk = Inr q \<Longrightarrow>
     q_id q = question_id P (source_exam q) (year q) (number q) \<and>
     (year q \<noteq> Some 0 \<longrightarrow>
        q_id q =
          py_upper P (filter (\<lambda>c. c \<noteq> 32)
                        (if source_exam q \<noteq> [] then source_exam q else U ''EXAM''))
          @ U ''-'' @ (case year q of None \<Rightarrow> U ''XXXX'' | Some y \<Rightarrow> str_int y)
          @ U ''-'' @ format_02d (number q) \<and>
        q_id q = spec_question_id P (if source_exam q \<noteq> [] then source_exam q else U ''EXAM'')
                   (year q) (number q)) \<and>
     (\<forall>c. c \<le> 255 \<longrightarrow> upper_cp P c = upper_latin1 c) \<and>
     question_id P (U ''ENARM'') (Some 2023) 7 = U ''ENARM-2023-07'' \<and>
     question_id P (U ''X Y'') None 1 = U ''XY-XXXX-01''"
proof (intro conjI impI allI)
  assume p: "parse_chunk P chunk = Inr q"
  show "q_id q = question_id P (source_exam q) (year q) (number q)"
    by (rule parse_chunk_id[OF p])
  show "q_id q = spec_question_id P (if source_exam q \<noteq> [] then source_exam q else U ''EXAM'')
                   (year q) (number q)" if "year q \<noteq> Some 0"
    using parse_chunk_id[OF p] question_id_spec[OF that] by simp
  then show "q_id q =
          py_upper P (filter (\<lambda>c. c \<noteq> 32)
                        (if source_exam q \<noteq> [] then source_exam q else U ''EXAM''))
          @ U ''-'' @ (case year q of None \<Rightarrow> U ''XXXX'' | Some y \<Rightarrow> str_int y)
          @ U ''-'' @ format_02d (number q)" if "year q \<noteq> Some 0"
    using that by (simp add: spec_question_id_def)
  show "upper_cp P c = upper_latin1 c" if "c \<le> 255" for c
    using that by (simp add: upper_cp_def)
  show "question_id P (U ''ENARM'') (Some 2023) 7 = U ''ENARM-2023-07''" by code_simp
  show "question_id P (U ''X Y'') None 1 = U ''XY-XXXX-01''" by code_simp
qed

theorem question_id_derivation_witness:
  "parse_chunk latin1 example_block = Inr example_question \<and>
   year example_question \<noteq> Some 0 \<and>
   q_id example_question = spec_question_id latin1 (U ''ENARM'') (Some 2023) 7 \<and>
   q_id example_question = U ''ENARM-2023-07''"
proof -
  have y: "year example_question \<noteq> Some 0" by (simp add: example_question_def)
  have e: "(if source_exam example_question \<noteq> [] then source_exam example_question else U ''EXAM'')
             = U ''ENARM''" by (simp add: example_question_def U_def)
  have f: "year example_question = Some 2023" "number example_question = 7"
    "q_id example_question = U ''ENARM-2023-07''"
    by (simp_all add: example_question_def)
  from question_id_derivation[OF example_block_parsed, of latin1] y
  have "q_id example_question =
          spec_question_id latin1
            (if source_exam example_question \<noteq> [] then source_exam example_question else U ''EXAM'')
            (year example_question) (number example_question)" by blast
  then have "q_id example_question = spec_question_id latin1 (U ''ENARM'') (Some 2023) 7"
    unfolding e f(1,2) .
  with example_block_parsed[of latin1] y f(3) show ?thesis by blast
qed

text \<open>
  C4 as stated fails on the block \<open>Pregunta 1 ( ):\<close>: the exam name of the parsed
  question is empty, and its identifier begins with \<open>EXAM\<close>, which is not the exam
  name in upper case.
\<close>

theorem question_id_counterexample:
  "parse_chunk latin1 blank_label_block = Inr blank_label_question \<and>
   source_exam blank_label_question = [] \<and>
   q_id blank_label_question = U ''EXAM-XXXX-01'' \<and>
   spec_question_id latin1 (source_exam blank_label_question) (year blank_label_question)
     (number blank_label_question) = U ''-XXXX-01'' \<and>
   q_id blank_label_question \<noteq>
     spec_question_id latin1 (source_exam blank_label_question) (year blank_label_question)
       (number blank_label_question)"
proof -
  have a: "source_exam blank_label_question = []"
    and b: "q_id blank_label_question = U ''EXAM-XXXX-01''"
    by (simp_all add: blank_label_question_def)
  have c: "spec_question_id latin1 (source_exam blank_label_question) (year blank_label_question)
     (number blank_label_question) = U ''-XXXX-01''" by code_simp
  have d: "U ''EXAM-XXXX-01'' \<noteq> U ''-XXXX-01''" by code_simp
  show ?thesis unfolding c b using blank_label_block_parsed[of latin1] a d by simp
qed

section \<open>The loops of \<open>parse_chunk\<close>\<close>

text \<open>
  What the four loops compute, in terms of the lines from \<open>idx\<close> on: a line is a
  metadata line, or an option line, when its stripped form matches the pattern.
\<close>

definition is_meta_line :: "platform \<Rightarrow> pystr \<Rightarrow> bool" where
  "is_meta_line P ln = (re_match P META_RE (py_strip ln) \<noteq> None)"

definition add_meta :: "platform \<Rightarrow> pystr \<Rightarrow> (pystr, pystr) dict \<Rightarrow> (pystr, pystr) dict" where
  "add_meta P ln meta =
     (case re_match P META_RE (py_strip ln) of
        None \<Rightarrow> meta
      | Some m \<Rightarrow> dict_set meta (py_lower P (grp m 1)) (py_strip (grp m 2)))"

definition read_meta :: "platform \<Rightarrow> pystr list \<Rightarrow> (pystr, pystr) dict" where
  "read_meta P ms = fold (add_meta P) ms []"

definition is_option_line :: "platform \<Rightarrow> pystr \<Rightarrow> bool" where
  "is_option_line P ln = (re_match P OPTION_RE (py_strip ln) \<noteq> None)"

definition option_of_line :: "platform \<Rightarrow> pystr \<Rightarrow> answer_option option" where
  "option_of_line P ln =
     map_option (\<lambda>m. \<lparr> ao_id = grp m 1, ao_text = py_strip (grp m 2), linked_entity = None \<rparr>)
       (re_match P OPTION_RE (py_strip ln))"

lemma drop_nth_Cons: "idx < length xs \<Longrightarrow> drop idx xs = xs ! idx # drop (Suc idx) xs"
  by (simp add: Cons_nth_drop_Suc)

lemma meta_loop_eq:
  "meta_loop P lines idx meta =
     (fold (add_meta P) (takeWhile (is_meta_line P) (drop idx lines)) meta,
      idx + length (takeWhile (is_meta_line P) (drop idx lines)))"
proof (induction P lines idx meta rule: meta_loop.induct)
  case (1 P lines idx meta)
  show ?case
  proof (cases "idx < length lines")
    case False
    then show ?thesis by (simp add: meta_loop.simps[of P lines idx meta])
  next
    case True
    note d = drop_nth_Cons[OF True]
    show ?thesis
    proof (cases "re_match P META_RE (py_strip (lines ! idx))")
      case None
      then show ?thesis using True
        by (simp add: meta_loop.simps[of P lines idx meta] d is_meta_line_def)
    next
      case (Some m)
      from 1[OF True Some] Some True show ?thesis
        by (simp add: meta_loop.simps[of P lines idx meta] d is_meta_line_def add_meta_def)
    qed
  qed
qed

lemma skip_blank_eq:
  "skip_blank lines idx = idx + length (takeWhile (\<lambda>ln. py_strip ln = []) (drop idx lines))"
proof (induction lines idx rule: skip_blank.induct)
  case (1 lines idx)
  show ?case
  proof (cases "idx < length lines \<and> py_strip (lines ! idx) = []")
    case True
    with 1[OF True] show ?thesis
      by (simp add: skip_blank.simps[of lines idx] drop_nth_Cons)
  next
    case False
    then show ?thesis
      by (cases "idx < length lines") (auto simp: skip_blank.simps[of lines idx] drop_nth_Cons)
  qed
qed

lemma stem_loop_eq:
  "stem_loop P lines idx acc =
     (acc @ takeWhile (\<lambda>ln. \<not> is_option_line P ln) (drop idx lines),
      idx + length (takeWhile (\<lambda>ln. \<not> is_option_line P ln) (drop idx lines)))"
proof (induction P lines idx acc rule: stem_loop.induct)
  case (1 P lines idx acc)
  show ?case
  proof (cases "idx < length lines \<and> re_match P OPTION_RE (py_strip (lines ! idx)) = None")
    case True
    with 1[OF True] show ?thesis
      by (simp add: stem_loop.simps[of P lines idx acc] drop_nth_Cons is_option_line_def)
  next
    case False
    then show ?thesis
      by (cases "idx < length lines")
         (auto simp: stem_loop.simps[of P lines idx acc] drop_nth_Cons is_option_line_def)
  qed
qed

lemma options_loop_eq:
  "options_loop P lines idx opts =
     opts @ List.map_filter (option_of_line P)
              (takeWhile (\<lambda>ln. \<not> is_answer P (py_strip ln)) (drop idx lines))"
proof (induction P lines idx opts rule: options_loop.induct)
  case (1 P lines idx opts)
  show ?case
  proof (cases "idx < length lines")
    case False
    then show ?thesis by (simp add: options_loop.simps[of P lines idx opts] List.map_filter_simps)
  next
    case True
    note d = drop_nth_Cons[OF True]
    show ?thesis
    proof (cases "is_answer P (py_strip (lines ! idx))")
      case ans: True
      then show ?thesis using True
        by (simp add: options_loop.simps[of P lines idx opts] d List.map_filter_simps)
    next
      case ans: False
      show ?thesis
      proof (cases "re_match P OPTION_RE (py_strip (lines ! idx))")
        case None
        from 1(1)[OF True refl ans None] None ans True show ?thesis
          by (simp add: options_loop.simps[of P lines idx opts] d List.map_filter_simps
                option_of_line_def)
      next
        case (Some m)
        from 1(2)[OF True refl ans Some] Some ans True show ?thesis
          by (simp add: options_loop.simps[of P lines idx opts] d List.map_filter_simps
                option_of_line_def)
      qed
    qed
  qed
qed

lemma drop_add_takeWhile:
  "drop (i + length (takeWhile Q (drop i xs))) xs = dropWhile Q (drop i xs)"
  by (metis drop_drop add.commute dropWhile_eq_drop)

section \<open>What a match holds\<close>

text \<open>The groups that a pattern can set.\<close>

fun rx_groups :: "rx \<Rightarrow> nat set" where
  "rx_groups (Seq a b) = rx_groups a \<union> rx_groups b"
| "rx_groups (Alt a b) = rx_groups a \<union> rx_groups b"
| "rx_groups (Star a) = rx_groups a"
| "rx_groups (Grp n a) = insert n (rx_groups a)"
| "rx_groups r = {}"

lemma step1_mem:
  "st' \<in> set (step1 Q st) \<longleftrightarrow> (\<exists>c. fst st = c # fst st' \<and> Q c \<and> snd st' = snd st)"
  by (cases st; cases st') (auto simp: step1_def split: list.splits)

lemma go_Star_mem:
  "st' \<in> set (go P ic s (Star a) st) \<longleftrightarrow>
     st' = st \<or> (\<exists>x \<in> set (go P ic s a st). length (fst x) < length (fst st) \<and>
                   st' \<in> set (go P ic s (Star a) x))"
  by (subst go.simps(11)) auto

lemma go_captures:
  "st' \<in> set (go P ic s r st) \<Longrightarrow> \<exists>new. snd st' = new @ snd st \<and> fst ` set new \<subseteq> rx_groups r"
proof (induction P ic s r st arbitrary: st' rule: go.induct)
  case (9 P ic s a b st)
  from 9(3) obtain x where x: "x \<in> set (go P ic s a st)" and st': "st' \<in> set (go P ic s b x)"
    by auto
  from 9(1)[OF x] obtain n1 where n1: "snd x = n1 @ snd st" "fst ` set n1 \<subseteq> rx_groups a" by blast
  from 9(2)[OF x st'] obtain n2 where n2: "snd st' = n2 @ snd x" "fst ` set n2 \<subseteq> rx_groups b"
    by blast
  have "snd st' = (n2 @ n1) @ snd st \<and> fst ` set (n2 @ n1) \<subseteq> rx_groups (Seq a b)"
    using n1 n2 by auto
  then show ?case by (rule exI)
next
  case (10 P ic s a b st)
  from 10(3) consider "st' \<in> set (go P ic s a st)" | "st' \<in> set (go P ic s b st)" by auto
  then show ?case
  proof cases
    case 1
    from 10(1)[OF 1] obtain n where "snd st' = n @ snd st" "fst ` set n \<subseteq> rx_groups a" by blast
    then have "snd st' = n @ snd st \<and> fst ` set n \<subseteq> rx_groups (Alt a b)" by auto
    then show ?thesis by (rule exI)
  next
    case 2
    from 10(2)[OF 2] obtain n where "snd st' = n @ snd st" "fst ` set n \<subseteq> rx_groups b" by blast
    then have "snd st' = n @ snd st \<and> fst ` set n \<subseteq> rx_groups (Alt a b)" by auto
    then show ?thesis by (rule exI)
  qed
next
  case (11 P ic s a st)
  from iffD1[OF go_Star_mem 11(3)] consider "st' = st"
    | x where "x \<in> set (go P ic s a st)" "length (fst x) < length (fst st)"
        "st' \<in> set (go P ic s (Star a) x)"
    by blast
  then show ?case
  proof cases
    case 1
    then have "snd st' = [] @ snd st \<and> fst ` set [] \<subseteq> rx_groups (Star a)" by simp
    then show ?thesis by (rule exI)
  next
    case 2
    from 11(1)[OF 2(1)] obtain n1 where n1: "snd x = n1 @ snd st" "fst ` set n1 \<subseteq> rx_groups a"
      by blast
    have "x \<in> set (filter (\<lambda>st'. length (fst st') < length (fst st)) (go P ic s a st))"
      using 2 by simp
    from 11(2)[OF this 2(3)] obtain n2 where
      n2: "snd st' = n2 @ snd x" "fst ` set n2 \<subseteq> rx_groups (Star a)" by blast
    have "snd st' = (n2 @ n1) @ snd st \<and> fst ` set (n2 @ n1) \<subseteq> rx_groups (Star a)"
      using n1 n2 by auto
    then show ?thesis by (rule exI)
  qed
next
  case (12 P ic s n a st)
  from 12(2) obtain x where x: "x \<in> set (go P ic s a st)"
    and st': "st' = (fst x, (n, take (length (fst st) - length (fst x)) (fst st)) # snd x)"
    by auto
  from 12(1)[OF x] obtain n1 where n1: "snd x = n1 @ snd st" "fst ` set n1 \<subseteq> rx_groups a" by blast
  have "snd st' = ((n, take (length (fst st) - length (fst x)) (fst st)) # n1) @ snd st \<and>
        fst ` set ((n, take (length (fst st) - length (fst x)) (fst st)) # n1) \<subseteq> rx_groups (Grp n a)"
    using n1 st' by auto
  then show ?case by (rule exI)
qed (auto simp: step1_mem split: if_splits)

lemma map_of_append_notin: "k \<notin> fst ` set new \<Longrightarrow> map_of (new @ old) k = map_of old k"
  by (induction new) auto

lemma go_keeps_group:
  assumes "st' \<in> set (go P ic s r st)" and "k \<notin> rx_groups r"
  shows "map_of (snd st') k = map_of (snd st) k"
proof -
  from go_captures[OF assms(1)] obtain new where
    new: "snd st' = new @ snd st" "fst ` set new \<subseteq> rx_groups r" by blast
  with assms(2) have "k \<notin> fst ` set new" by blast
  then have "map_of (new @ snd st) k = map_of (snd st) k" by (rule map_of_append_notin)
  with new(1) show ?thesis by (simp only:)
qed

lemma rx_groups_seqs: "rx_groups (seqs rs) = (\<Union>r \<in> set rs. rx_groups r)"
  by (induction rs) (simp_all add: seqs_def)

lemma rx_groups_lits [simp]: "rx_groups (lits s) = {}"
  by (simp add: lits_def rx_groups_seqs)

lemma rx_groups_plus [simp]: "rx_groups (plus r) = rx_groups r"
  by (simp add: plus_def)

lemma rx_groups_L [simp]: "rx_groups (L c) = {}"
  by (simp add: L_def)

lemma seqs_Cons: "seqs (r # rs) = Seq r (seqs rs)"
  by (simp add: seqs_def)

lemma go_seqs_mem:
  "st' \<in> set (go P ic s (seqs (r # rs)) st) \<longleftrightarrow>
     (\<exists>x \<in> set (go P ic s r st). st' \<in> set (go P ic s (seqs rs) x))"
  by (auto simp: seqs_Cons)

lemma go_Grp_mem:
  "st' \<in> set (go P ic s (Grp n a) st) \<longleftrightarrow>
     (\<exists>x \<in> set (go P ic s a st).
        st' = (fst x, (n, take (length (fst st) - length (fst x)) (fst st)) # snd x))"
  by auto



lemma re_match_SomeD:
  assumes "re_match P c s = Some m"
  shows "\<exists>st \<in> set (go P (fst c) s (snd c) (s, [])). m = mk_match (snd c) s s st"
proof -
  from assms obtain st where
    st: "find (\<lambda>st. \<not> (False \<and> length (fst st) = length s)) (go P (fst c) s (snd c) (s, [])) = Some st"
    and m: "m = mk_match (snd c) s s st"
    by (auto simp: re_match_def match_here_def)
  from find_SomeD[OF st] m show ?thesis by blast
qed

lemma group_mk_match:
  assumes "1 \<le> i" and "i \<le> ngroups r"
  shows "group (mk_match r s rest st) i = map_of (snd st) i"
proof -
  have len: "length (m_groups (mk_match r s rest st)) = ngroups r"
    by (simp add: mk_match_def del: upt_Suc)
  have "i - 1 < length [1 ..< Suc (ngroups r)]" using assms by (simp del: upt_Suc)
  then have "map (\<lambda>i. map_of (snd st) i) [1 ..< Suc (ngroups r)] ! (i - 1)
               = map_of (snd st) ([1 ..< Suc (ngroups r)] ! (i - 1))"
    by (rule nth_map)
  also have "[1 ..< Suc (ngroups r)] ! (i - 1) = i"
    using assms by (simp add: nth_upt del: upt_Suc)
  finally show ?thesis using assms len by (simp add: group_def mk_match_def del: upt_Suc)
qed

section \<open>The lines of a block\<close>

text \<open>
  The header line of a block, the lines after it, and the parts that the loops
  of \<open>parse_chunk\<close> take from them.
\<close>

definition header_line :: "platform \<Rightarrow> pystr \<Rightarrow> pystr option" where
  "header_line P chunk = find (is_header P) (chunk_lines chunk)"

definition lines_after_header :: "platform \<Rightarrow> pystr \<Rightarrow> pystr list" where
  "lines_after_header P chunk =
     (case header_line P chunk of
        None \<Rightarrow> []
      | Some h \<Rightarrow> drop (index_of h (chunk_lines chunk) + 1) (chunk_lines chunk))"

definition meta_lines :: "platform \<Rightarrow> pystr \<Rightarrow> pystr list" where
  "meta_lines P chunk = takeWhile (is_meta_line P) (lines_after_header P chunk)"

definition stem_lines_of :: "platform \<Rightarrow> pystr \<Rightarrow> pystr list" where
  "stem_lines_of P chunk =
     takeWhile (\<lambda>ln. \<not> is_option_line P ln)
       (dropWhile (is_meta_line P) (lines_after_header P chunk))"

definition option_lines :: "platform \<Rightarrow> pystr \<Rightarrow> pystr list" where
  "option_lines P chunk =
     filter (is_option_line P)
       (takeWhile (\<lambda>ln. \<not> is_answer P (py_strip ln))
          (dropWhile (\<lambda>ln. \<not> is_option_line P ln)
             (dropWhile (is_meta_line P) (lines_after_header P chunk))))"

lemma dropWhile_keeps: "x \<in> set xs \<Longrightarrow> \<not> Q x \<Longrightarrow> x \<in> set (dropWhile Q xs)"
  by (induction xs) auto

lemma all_space_strip: "(py_strip s = []) = list_all is_space s"
proof
  assume "list_all is_space s"
  then show "py_strip s = []"
    by (auto simp: py_strip_def py_lstrip_def py_rstrip_def list_all_iff dest: set_dropWhileD)
next
  assume e: "py_strip s = []"
  show "list_all is_space s"
  proof (rule ccontr)
    assume "\<not> list_all is_space s"
    then obtain x where x: "x \<in> set s" "\<not> is_space x" by (auto simp: list_all_iff)
    from dropWhile_keeps[of x s is_space, OF this]
    have "x \<in> set (dropWhile is_space s)" .
    then have "x \<in> set (rev (dropWhile is_space s))" by simp
    from dropWhile_keeps[of x "rev (dropWhile is_space s)" is_space, OF this x(2)]
    have "x \<in> set (py_strip s)" by (simp add: py_strip_def py_lstrip_def py_rstrip_def)
    with e show False by simp
  qed
qed

lemma rstrip_keeps: "x \<in> set s \<Longrightarrow> \<not> is_space x \<Longrightarrow> x \<in> set (py_rstrip s)"
proof -
  assume x: "x \<in> set s" "\<not> is_space x"
  then have "x \<in> set (rev s)" by simp
  from dropWhile_keeps[of x "rev s" is_space, OF this x(2)] show ?thesis
    by (simp add: py_rstrip_def)
qed

lemma strip_rstrip_nonblank: "py_strip s \<noteq> [] \<Longrightarrow> py_strip (py_rstrip s) \<noteq> []"
proof -
  assume "py_strip s \<noteq> []"
  then obtain x where x: "x \<in> set s" "\<not> is_space x"
    by (auto simp: all_space_strip list_all_iff)
  from rstrip_keeps[OF x] x(2) show ?thesis
    by (auto simp: all_space_strip list_all_iff)
qed

lemma starts_Pregunta_nonblank: "py_startswith s (U ''Pregunta'') \<Longrightarrow> py_strip s \<noteq> []"
proof -
  assume a: "py_startswith s (U ''Pregunta'')"
  then obtain t where "s = 80 # t"
    by (cases s) (auto simp: py_startswith_def U_def)
  moreover have "\<not> is_space 80" by (simp add: is_space_def)
  ultimately show ?thesis by (auto simp: all_space_strip)
qed

lemma chunk_lines_nonblank: "ln \<in> set (chunk_lines chunk) \<Longrightarrow> py_strip ln \<noteq> []"
  by (auto simp: chunk_lines_def dest: strip_rstrip_nonblank starts_Pregunta_nonblank)


lemma takeWhile_none: "(\<And>x. x \<in> set xs \<Longrightarrow> \<not> Q x) \<Longrightarrow> takeWhile Q xs = []"
  by (cases xs) auto

lemma skip_blank_chunk_lines:
  "skip_blank (chunk_lines chunk) idx = idx"
proof -
  have "takeWhile (\<lambda>ln. py_strip ln = []) (drop idx (chunk_lines chunk)) = []"
    by (rule takeWhile_none) (auto dest: in_set_dropD chunk_lines_nonblank)
  then show ?thesis by (simp add: skip_blank_eq)
qed

text \<open>A question that \<open>parse_chunk\<close> returns, field by field.\<close>

lemma parse_chunk_Inr:
  assumes "parse_chunk P chunk = Inr q"
  shows "\<exists>h num exam yr.
           header_line P chunk = Some h \<and> parse_header P h = Inr (num, exam, yr) \<and>
           q = \<lparr> q_id = question_id P exam yr num,
                 source_exam = exam,
                 year = yr,
                 number = num,
                 domain = or_else (dict_get (read_meta P (meta_lines P chunk)) key_area_accent)
                                  (dict_get (read_meta P (meta_lines P chunk)) (U ''area'')),
                 topic = dict_get (read_meta P (meta_lines P chunk)) (U ''tema''),
                 subtopic = dict_get (read_meta P (meta_lines P chunk)) (U ''subtema''),
                 focus = or_else (dict_get (read_meta P (meta_lines P chunk)) key_focus_accent)
                                 (dict_get (read_meta P (meta_lines P chunk))
                                    (U ''subtema especifico'')),
                 stem = py_strip (py_join [10] (map py_strip (stem_lines_of P chunk))),
                 options = List.map_filter (option_of_line P)
                   (takeWhile (\<lambda>ln. \<not> is_answer P (py_strip ln))
                      (dropWhile (\<lambda>ln. \<not> is_option_line P ln)
                         (dropWhile (is_meta_line P) (lines_after_header P chunk)))),
                 answer_key = fst (parse_answer P (chunk_lines chunk)),
                 answer_text = snd (parse_answer P (chunk_lines chunk)),
                 clinical_entities = [],
                 reasoning_tags = make_tags P (read_meta P (meta_lines P chunk)),
                 metadata = [(U ''raw_header'', h)] \<rparr>"
proof -
  from assms obtain h where h: "find (is_header P) (chunk_lines chunk) = Some h"
    by (cases "find (is_header P) (chunk_lines chunk)") (auto simp: parse_chunk_def)
  from assms h obtain num exam yr where ph: "parse_header P h = Inr (num, exam, yr)"
    by (cases "parse_header P h") (auto simp: parse_chunk_def)
  define lines where "lines = chunk_lines chunk"
  define i0 where "i0 = Suc (index_of h lines)"
  define after where "after = drop i0 lines"
  define i1 where "i1 = i0 + length (takeWhile (is_meta_line P) after)"
  define body where "body = dropWhile (is_meta_line P) after"
  define i3 where "i3 = i1 + length (takeWhile (\<lambda>ln. \<not> is_option_line P ln) body)"
  have h': "find (is_header P) lines = Some h"
    by (simp add: lines_def h)
  have after: "lines_after_header P chunk = after"
    by (simp add: lines_after_header_def header_line_def h after_def i0_def lines_def)
  have m: "meta_loop P lines i0 [] = (read_meta P (meta_lines P chunk), i1)"
    by (simp add: meta_loop_eq read_meta_def meta_lines_def after i1_def after_def)
  have sk: "skip_blank lines i1 = i1"
    by (simp add: lines_def skip_blank_chunk_lines)
  have b: "drop i1 lines = body"
    unfolding i1_def after_def body_def by (rule drop_add_takeWhile)
  have st: "stem_loop P lines i1 [] = (stem_lines_of P chunk, i3)"
    by (simp add: stem_loop_eq b stem_lines_of_def after i3_def body_def)
  have d3: "drop i3 lines = dropWhile (\<lambda>ln. \<not> is_option_line P ln) body"
    unfolding i3_def b[symmetric] by (rule drop_add_takeWhile)
  have op: "options_loop P lines i3 [] =
      List.map_filter (option_of_line P)
        (takeWhile (\<lambda>ln. \<not> is_answer P (py_strip ln))
           (dropWhile (\<lambda>ln. \<not> is_option_line P ln)
              (dropWhile (is_meta_line P) (lines_after_header P chunk))))"
    by (simp add: options_loop_eq d3 body_def after)
  from assms have "q = \<lparr> q_id = question_id P exam yr num,
                 source_exam = exam,
                 year = yr,
                 number = num,
                 domain = or_else (dict_get (read_meta P (meta_lines P chunk)) key_area_accent)
                                  (dict_get (read_meta P (meta_lines P chunk)) (U ''area'')),
                 topic = dict_get (read_meta P (meta_lines P chunk)) (U ''tema''),
                 subtopic = dict_get (read_meta P (meta_lines P chunk)) (U ''subtema''),
                 focus = or_else (dict_get (read_meta P (meta_lines P chunk)) key_focus_accent)
                                 (dict_get (read_meta P (meta_lines P chunk))
                                    (U ''subtema especifico'')),
                 stem = py_strip (py_join [10] (map py_strip (stem_lines_of P chunk))),
                 options = options_loop P lines i3 [],
                 answer_key = fst (parse_answer P (chunk_lines chunk)),
                 answer_text = snd (parse_answer P (chunk_lines chunk)),
                 clinical_entities = [],
                 reasoning_tags = make_tags P (read_meta P (meta_lines P chunk)),
                 metadata = [(U ''raw_header'', h)] \<rparr>"
    unfolding parse_chunk_def lines_def[symmetric]
    by (simp add: h' ph i0_def[symmetric] m sk st split_beta Let_def)
  then show ?thesis
    unfolding op by (simp add: header_line_def h ph)
qed

section \<open>The header and the option lines\<close>








text \<open>The letter of an option line is its first character, a capital letter of A to Z.\<close>

lemma option_letter:
  assumes "re_match P OPTION_RE s = Some m"
  shows "\<exists>c t. s = c # t \<and> grp m 1 = [c] \<and> 65 \<le> c \<and> c \<le> 90"
proof -
  define rest where "rest = [L CHR '')'', Star Space, Grp 2 (plus Dot), Eol]"
  define r where "r = seqs (Bol # Grp 1 (Cls False [(65, 90)]) # rest)"
  have rx: "snd OPTION_RE = r" and ic: "fst OPTION_RE = False"
    by (simp_all add: OPTION_RE_def r_def rest_def)
  have ng: "ngroups r = 2"
    by (simp add: r_def rest_def seqs_def plus_def L_def)
  have nr: "1 \<notin> rx_groups (seqs rest)"
    by (simp add: rest_def rx_groups_seqs)
  from re_match_SomeD[OF assms] obtain st where
    st: "st \<in> set (go P False s r (s, []))" and m: "m = mk_match r s s st"
    unfolding rx ic by blast
  from st obtain x1 x2 where
    x1: "x1 \<in> set (go P False s Bol (s, []))"
    and x2: "x2 \<in> set (go P False s (Grp 1 (Cls False [(65, 90)])) x1)"
    and x3: "st \<in> set (go P False s (seqs rest) x2)"
    unfolding r_def go_seqs_mem by blast
  from x1 have x1': "x1 = (s, [])" by (simp split: if_splits)
  from x2 obtain y where y: "y \<in> set (go P False s (Cls False [(65, 90)]) (s, []))"
    and x2': "x2 = (fst y, (1, take (length s - length (fst y)) s) # snd y)"
    unfolding go_Grp_mem x1' by auto
  from y obtain c where c: "s = c # fst y" "cls_ok P False False [(65, 90)] c"
    by (auto simp: step1_mem)
  from c(2) have rng: "65 \<le> c" "c \<le> 90" by (simp_all add: cls_ok_def in_ranges_def)
  have "take (length s - length (fst y)) s = [c]" by (subst (1 2) c(1)) simp
  then have "map_of (snd x2) 1 = Some [c]" by (simp add: x2')
  with go_keeps_group[OF x3 nr] have "map_of (snd st) 1 = Some [c]" by simp
  then have "group m 1 = Some [c]"
    unfolding m using group_mk_match[of 1 r s s st] ng by simp
  then have "grp m 1 = [c]" by (simp add: grp_def)
  with c(1) rng have "s = c # fst y \<and> grp m 1 = [c] \<and> 65 \<le> c \<and> c \<le> 90" by simp
  then show ?thesis by blast
qed





section \<open>When a block fails\<close>










section \<open>The metadata lines\<close>














section \<open>The options\<close>

definition repeated_letter_block :: pystr where
  "repeated_letter_block =
     U ''Pregunta 1 (X):'' @ [10] @ U ''Stem'' @ [10] @ U ''A) x'' @ [10] @ U ''A) y''"

definition repeated_letter_question :: question where
  "repeated_letter_question =
     \<lparr> q_id = U ''X-XXXX-01'', source_exam = U ''X'', year = None, number = 1,
       domain = None, topic = None, subtopic = None, focus = None,
       stem = U ''Stem'',
       options = [\<lparr> ao_id = U ''A'', ao_text = U ''x'', linked_entity = None \<rparr>,
                  \<lparr> ao_id = U ''A'', ao_text = U ''y'', linked_entity = None \<rparr>],
       answer_key = [], answer_text = [], clinical_entities = [], reasoning_tags = [],
       metadata = [(U ''raw_header'', U ''Pregunta 1 (X):'')] \<rparr>"

lemma repeated_letter_block_parsed:
  "parse_chunk P repeated_letter_block = Inr repeated_letter_question"
  by code_simp

lemma example_block_option_lines: "option_lines P example_block = [U ''A) Foo'', U ''B) Bar'']"
  by code_simp

lemma option_of_line_id:
  "option_of_line P ln = Some opt \<Longrightarrow>
     is_option_line P ln \<and> ao_id opt = [hd (py_strip ln)] \<and>
     65 \<le> hd (py_strip ln) \<and> hd (py_strip ln) \<le> 90"
proof -
  assume a: "option_of_line P ln = Some opt"
  then obtain m where m: "re_match P OPTION_RE (py_strip ln) = Some m"
    and opt: "opt = \<lparr> ao_id = grp m 1, ao_text = py_strip (grp m 2), linked_entity = None \<rparr>"
    by (auto simp: option_of_line_def)
  from option_letter[OF m] obtain c t where
    "py_strip ln = c # t \<and> grp m 1 = [c] \<and> 65 \<le> c \<and> c \<le> 90" by blast
  with m opt show ?thesis by (simp add: is_option_line_def)
qed

lemma option_of_line_None: "option_of_line P ln = None \<longleftrightarrow> \<not> is_option_line P ln"
  by (simp add: option_of_line_def is_option_line_def)

lemma map_filter_ids:
  "map ao_id (List.map_filter (option_of_line P) xs)
     = map (\<lambda>ln. [hd (py_strip ln)]) (filter (is_option_line P) xs)"
proof (induction xs)
  case Nil
  show ?case by (simp add: List.map_filter_simps)
next
  case (Cons ln xs)
  show ?case
  proof (cases "option_of_line P ln")
    case None
    with Cons show ?thesis
      using option_of_line_None[of P ln] by (simp add: List.map_filter_simps)
  next
    case (Some opt)
    from option_of_line_id[OF Some] Cons Some show ?thesis
      by (simp add: List.map_filter_simps)
  qed
qed

lemma option_line_letter:
  "is_option_line P ln \<Longrightarrow> 65 \<le> hd (py_strip ln) \<and> hd (py_strip ln) \<le> 90"
proof -
  assume "is_option_line P ln"
  then obtain opt where "option_of_line P ln = Some opt"
    using option_of_line_None[of P ln] by (cases "option_of_line P ln") auto
  from option_of_line_id[OF this] show ?thesis by simp
qed

lemma distinct_singletons: "distinct (map (\<lambda>x. [f x]) xs) = distinct (map f xs)"
  by (induction xs) auto

text \<open>
  C3, as the code has it. The options of a parsed question are read from the
  lines that follow the stem, up to the first line that begins with the answer
  marker: one option per option line, in the order of the lines, the other lines
  being skipped. The identifier of an option is the first character of its line,
  a capital letter of A to Z. A letter that two option lines carry appears twice:
  the identifiers are distinct exactly when the letters of the option lines are.
\<close>

theorem options_in_document_order:
  "parse_chunk P chunk = Inr q \<Longrightarrow>
     options q =
       List.map_filter (option_of_line P)
         (takeWhile (\<lambda>ln. \<not> is_answer P (py_strip ln))
            (dropWhile (\<lambda>ln. \<not> is_option_line P ln)
               (dropWhile (is_meta_line P) (lines_after_header P chunk)))) \<and>
     map ao_id (options q) = map (\<lambda>ln. [hd (py_strip ln)]) (option_lines P chunk) \<and>
     (\<forall>ln \<in> set (option_lines P chunk). 65 \<le> hd (py_strip ln) \<and> hd (py_strip ln) \<le> 90) \<and>
     (distinct (map ao_id (options q))
        \<longleftrightarrow> distinct (map (\<lambda>ln. hd (py_strip ln)) (option_lines P chunk)))"
proof -
  assume p: "parse_chunk P chunk = Inr q"
  from parse_chunk_Inr[OF p] have
    o: "options q =
       List.map_filter (option_of_line P)
         (takeWhile (\<lambda>ln. \<not> is_answer P (py_strip ln))
            (dropWhile (\<lambda>ln. \<not> is_option_line P ln)
               (dropWhile (is_meta_line P) (lines_after_header P chunk))))"
    by auto
  have ids: "map ao_id (options q) = map (\<lambda>ln. [hd (py_strip ln)]) (option_lines P chunk)"
    unfolding o option_lines_def by (rule map_filter_ids)
  have cap: "\<forall>ln \<in> set (option_lines P chunk). 65 \<le> hd (py_strip ln) \<and> hd (py_strip ln) \<le> 90"
    by (auto simp: option_lines_def dest: option_line_letter)
  have dis: "distinct (map ao_id (options q))
        \<longleftrightarrow> distinct (map (\<lambda>ln. hd (py_strip ln)) (option_lines P chunk))"
    unfolding ids by (rule distinct_singletons)
  from o ids cap dis show ?thesis by blast
qed

theorem options_in_document_order_witness:
  "parse_chunk latin1 example_block = Inr example_question \<and>
   option_lines latin1 example_block = [U ''A) Foo'', U ''B) Bar''] \<and>
   map ao_id (options example_question) = [U ''A'', U ''B''] \<and>
   distinct (map ao_id (options example_question))"
proof -
  from options_in_document_order[OF example_block_parsed, of latin1]
  have "map ao_id (options example_question)
          = map (\<lambda>ln. [hd (py_strip ln)]) (option_lines latin1 example_block)"
    by blast
  then have "map ao_id (options example_question)
          = map (\<lambda>ln. [hd (py_strip ln)]) [U ''A) Foo'', U ''B) Bar'']"
    unfolding example_block_option_lines .
  moreover have "map ao_id (options example_question) = [U ''A'', U ''B'']"
    by (simp add: example_question_def)
  moreover have "distinct [U ''A'', U ''B'']" by (simp add: U_def)
  ultimately show ?thesis
    using example_block_parsed[of latin1] example_block_option_lines[of latin1] by simp
qed

text \<open>
  C3 as stated fails on a block with two option lines that begin with \<open>A)\<close>: the
  question has two options, both with the identifier \<open>A\<close>.
\<close>

theorem options_in_document_order_counterexample:
  "parse_chunk latin1 repeated_letter_block = Inr repeated_letter_question \<and>
   map ao_id (options repeated_letter_question) = [U ''A'', U ''A''] \<and>
   \<not> distinct (map ao_id (options repeated_letter_question))"
  using repeated_letter_block_parsed[of latin1]
  by (simp add: repeated_letter_question_def)

section \<open>What the annotator appends\<close>

text \<open>
  The entities of the matches of one pattern on a text, in the order of the
  matches, and those of a list of patterns, one list per pattern. Both fail as
  the loops of \<open>enrich_question\<close> do.
\<close>

definition pattern_entities :: "re_module \<Rightarrow> pyval \<Rightarrow> pyval \<Rightarrow> error + pyval list" where
  "pattern_entities R text pattern =
     (case pattern of
        PDict d \<Rightarrow>
          (case dict_get d (U ''regex'') of
             None \<Rightarrow> Inl (KeyError (U ''regex''))
           | Some (PRegex source ic) \<Rightarrow>
               (case text of
                  PStr s \<Rightarrow> map_result (match_entity d) (re_finditer R source ic s)
                | _ \<Rightarrow> Inl TypeError)
           | Some _ \<Rightarrow> Inl AttributeError)
      | _ \<Rightarrow> Inl TypeError)"

definition new_entities :: "re_module \<Rightarrow> pyval \<Rightarrow> pyval list \<Rightarrow> error + pyval list list" where
  "new_entities R text patterns = map_result (pattern_entities R text) patterns"

definition stem_text :: "(pystr, pyval) dict \<Rightarrow> pyval" where
  "stem_text question = dict_get_default question (U ''stem'') (PStr [])"

text \<open>The list that \<open>enrich_question\<close> appends to: \<open>question.get("clinical_entities", []) or []\<close>.\<close>

definition start_entities :: "(pystr, pyval) dict \<Rightarrow> pyval" where
  "start_entities question =
     (let found = dict_get_default question (U ''clinical_entities'') (PList [])
      in if truthy found then found else PList [])"

fun is_list :: "pyval \<Rightarrow> bool" where
  "is_list (PList xs) = True"
| "is_list v = False"

fun is_dict :: "pyval \<Rightarrow> bool" where
  "is_dict (PDict d) = True"
| "is_dict v = False"

lemma dict_get_set_same: "dict_get (dict_set d k v) k = Some v"
  by (simp add: dict_get_def dict_set_def update_conv')

lemma dict_get_set_other: "k' \<noteq> k \<Longrightarrow> dict_get (dict_set d k v) k' = dict_get d k'"
  by (simp add: dict_get_def dict_set_def update_conv')

lemma map_result_Inr:
  "map_result f xs = Inr ys \<longleftrightarrow> list_all2 (\<lambda>x y. f x = Inr y) xs ys"
proof (induction xs arbitrary: ys)
  case Nil
  show ?case by auto
next
  case (Cons x xs)
  show ?case
  proof (cases "f x")
    case (Inl e)
    then show ?thesis by (auto simp: list_all2_Cons1)
  next
    case (Inr y)
    show ?thesis
    proof (cases "map_result f xs")
      case (Inl e)
      with Cons[of "tl ys"] Inr show ?thesis
        by (cases ys) (auto simp: list_all2_Cons1)
    next
      case zs: (Inr zs)
      with Cons Inr show ?thesis by (cases ys) (auto simp: list_all2_Cons1)
    qed
  qed
qed

lemma map_result_Nil: "map_result f xs = Inr [] \<Longrightarrow> xs = []"
  by (simp add: map_result_Inr)

lemma match_loop_list:
  "match_loop d ms (PList es) =
     (case map_result (match_entity d) ms of
        Inl e \<Rightarrow> Inl e
      | Inr new \<Rightarrow> Inr (PList (es @ new)))"
  by (induction ms arbitrary: es) (auto split: sum.splits)

lemma match_loop_other:
  "\<not> is_list v \<Longrightarrow> match_loop d ms v = Inr v' \<Longrightarrow> ms = [] \<and> v' = v"
  by (cases ms; cases v) (auto split: sum.splits)

lemma pattern_loop_list:
  "pattern_loop R ps text (PList es) =
     (case new_entities R text ps of
        Inl e \<Rightarrow> Inl e
      | Inr ess \<Rightarrow> Inr (PList (es @ concat ess)))"
proof (induction ps arbitrary: es)
  case Nil
  show ?case by (simp add: new_entities_def)
next
  case (Cons p ps)
  show ?case
  proof (cases "pattern_entities R text p")
    case (Inl e)
    then have "pattern_loop R (p # ps) text (PList es) = Inl e"
      by (auto simp: pattern_entities_def match_loop_list
               split: pyval.splits option.splits sum.splits)
    with Inl show ?thesis by (simp add: new_entities_def)
  next
    case (Inr new)
    then have "pattern_loop R (p # ps) text (PList es) = pattern_loop R ps text (PList (es @ new))"
      by (auto simp: pattern_entities_def match_loop_list
               split: pyval.splits option.splits sum.splits)
    with Inr Cons[of "es @ new"] show ?thesis
      by (auto simp: new_entities_def split: sum.splits)
  qed
qed

lemma pattern_loop_other:
  assumes "\<not> is_list v" and "pattern_loop R ps text v = Inr v'"
  shows "v' = v \<and> (\<exists>ess. new_entities R text ps = Inr ess \<and> concat ess = [])"
  using assms(2)
proof (induction ps)
  case Nil
  then show ?case by (simp add: new_entities_def)
next
  case (Cons p ps)
  from Cons.prems obtain d source ic s w where
    p: "p = PDict d" "dict_get d (U ''regex'') = Some (PRegex source ic)" "text = PStr s"
    and ml: "match_loop d (re_finditer R source ic s) v = Inr w"
    and rest: "pattern_loop R ps text w = Inr v'"
    by (auto split: pyval.splits option.splits sum.splits)
  from match_loop_other[OF assms(1) ml] have e: "re_finditer R source ic s = []" and w: "w = v"
    by simp_all
  from Cons.IH rest w obtain ess where
    v': "v' = v" and ess: "new_entities R text ps = Inr ess" "concat ess = []" by auto
  have "pattern_entities R text p = Inr []" by (simp add: pattern_entities_def p e)
  with ess have "new_entities R text (p # ps) = Inr ([] # ess) \<and> concat ([] # ess) = []"
    by (simp add: new_entities_def)
  with v' show ?case by blast
qed

lemma pattern_loop_other_again:
  assumes "\<not> is_list v" and "new_entities R text ps = Inr ess" and "concat ess = []"
  shows "pattern_loop R ps text v = Inr v"
  using assms(2,3)
proof (induction ps arbitrary: ess)
  case Nil
  show ?case by simp
next
  case (Cons p ps)
  from Cons.prems(1) obtain new ess' where
    new: "pattern_entities R text p = Inr new" and ess': "new_entities R text ps = Inr ess'"
    and e: "ess = new # ess'"
    by (auto simp: new_entities_def split: sum.splits)
  from Cons.prems(2) e have n: "new = []" and c: "concat ess' = []" by simp_all
  from new n obtain d source ic s where
    p: "p = PDict d" "dict_get d (U ''regex'') = Some (PRegex source ic)" "text = PStr s"
    and m: "map_result (match_entity d) (re_finditer R source ic s) = Inr []"
    by (auto simp: pattern_entities_def split: pyval.splits option.splits)
  from map_result_Nil[OF m] have "re_finditer R source ic s = []" .
  with p Cons.IH[OF ess' c] show ?case by simp
qed

lemma start_entities_list: "start_entities question = PList es \<Longrightarrow> entities_of question = es"
  by (auto simp: start_entities_def entities_of_def dict_get_default_def Let_def
           split: option.splits pyval.splits if_splits)

lemma start_entities_other:
  "\<not> is_list (start_entities question) \<Longrightarrow>
     entities_of question = [] \<and>
     dict_get question (U ''clinical_entities'') = Some (start_entities question)"
  by (auto simp: start_entities_def entities_of_def dict_get_default_def Let_def
           split: option.splits pyval.splits if_splits)

lemma enrich_question_eq:
  "enrich_question R question patterns =
     (case pattern_loop R patterns (stem_text question) (start_entities question) of
        Inl e \<Rightarrow> Inl e
      | Inr entities' \<Rightarrow> Inr (dict_set question (U ''clinical_entities'') entities'))"
  by (simp add: enrich_question_def stem_text_def start_entities_def Let_def)

text \<open>A call that returns has appended the new entities to those of the question.\<close>

lemma enrich_question_Inr:
  assumes "enrich_question R question patterns = Inr q'"
  shows "\<exists>ess v. new_entities R (stem_text question) patterns = Inr ess \<and>
           q' = dict_set question (U ''clinical_entities'') v \<and>
           (if is_list (start_entities question)
            then v = PList (entities_of question @ concat ess)
            else v = start_entities question \<and> concat ess = [] \<and> entities_of question = [])"
proof -
  from assms obtain v where
    pl: "pattern_loop R patterns (stem_text question) (start_entities question) = Inr v"
    and q': "q' = dict_set question (U ''clinical_entities'') v"
    by (auto simp: enrich_question_eq split: sum.splits)
  show ?thesis
  proof (cases "is_list (start_entities question)")
    case True
    then obtain es where es: "start_entities question = PList es"
      by (cases "start_entities question") auto
    from pl obtain ess where
      ess: "new_entities R (stem_text question) patterns = Inr ess" and v: "v = PList (es @ concat ess)"
      unfolding es pattern_loop_list by (auto split: sum.splits)
    from start_entities_list[OF es] v have "v = PList (entities_of question @ concat ess)" by simp
    with ess q' True show ?thesis by auto
  next
    case False
    from pattern_loop_other[OF False pl] obtain ess where
      "v = start_entities question" "new_entities R (stem_text question) patterns = Inr ess"
      "concat ess = []" by blast
    with start_entities_other[OF False] q' False show ?thesis by auto
  qed
qed

lemma entities_of_set:
  "entities_of (dict_set question (U ''clinical_entities'') v) = (case v of PList es \<Rightarrow> es | _ \<Rightarrow> [])"
  by (simp add: entities_of_def dict_get_set_same split: pyval.splits)

lemma stem_text_set:
  "stem_text (dict_set question (U ''clinical_entities'') v) = stem_text question"
proof -
  have "U ''stem'' \<noteq> U ''clinical_entities''" by (simp add: U_def)
  then show ?thesis by (simp add: stem_text_def dict_get_default_def dict_get_set_other)
qed


text \<open>A second call on the result of a first one appends the same entities again.\<close>

lemma enrich_question_twice:
  assumes "enrich_question R question patterns = Inr q1"
  shows "\<exists>q2 new. enrich_question R q1 patterns = Inr q2 \<and>
           entities_of q1 = entities_of question @ new \<and>
           entities_of q2 = entities_of question @ new @ new"
proof -
  from enrich_question_Inr[OF assms] obtain ess v where
    ess: "new_entities R (stem_text question) patterns = Inr ess"
    and q1: "q1 = dict_set question (U ''clinical_entities'') v"
    and v: "if is_list (start_entities question)
            then v = PList (entities_of question @ concat ess)
            else v = start_entities question \<and> concat ess = [] \<and> entities_of question = []"
    by blast
  have st: "stem_text q1 = stem_text question" by (simp add: q1 stem_text_set)
  have found: "dict_get_default q1 (U ''clinical_entities'') (PList []) = v"
    by (simp add: q1 dict_get_default_def dict_get_set_same)
  show ?thesis
  proof (cases "is_list (start_entities question)")
    case True
    with v have v': "v = PList (entities_of question @ concat ess)" by simp
    have "start_entities q1 = PList (entities_of question @ concat ess)"
      by (simp add: start_entities_def found v')
    then have "enrich_question R q1 patterns =
        Inr (dict_set q1 (U ''clinical_entities'')
               (PList ((entities_of question @ concat ess) @ concat ess)))"
      by (simp add: enrich_question_eq st pattern_loop_list ess)
    moreover have "entities_of q1 = entities_of question @ concat ess"
      by (simp add: q1 entities_of_set v')
    ultimately show ?thesis by (auto simp: entities_of_set)
  next
    case False
    with v have v': "v = start_entities question" and c: "concat ess = []"
      and e: "entities_of question = []" by simp_all
    from False v' have nl: "\<not> is_list v" by simp
    then have tr: "truthy v"
      using False unfolding v' start_entities_def Let_def by (auto split: if_splits)
    have s1: "start_entities q1 = v" by (simp add: start_entities_def found tr)
    have "enrich_question R q1 patterns = Inr (dict_set q1 (U ''clinical_entities'') v)"
      using pattern_loop_other_again[OF nl ess c]
      by (simp add: enrich_question_eq st s1)
    moreover have "entities_of q1 = []" using nl by (cases v) (simp_all add: q1 entities_of_set)
    moreover have "entities_of (dict_set q1 (U ''clinical_entities'') v) = []"
      using nl by (cases v) (simp_all add: entities_of_set)
    ultimately have "enrich_question R q1 patterns = Inr (dict_set q1 (U ''clinical_entities'') v) \<and>
           entities_of q1 = entities_of question @ [] \<and>
           entities_of (dict_set q1 (U ''clinical_entities'') v) = entities_of question @ [] @ []"
      using e by simp
    then show ?thesis by blast
  qed
qed

section \<open>The matcher as an \<open>re\<close> module\<close>

text \<open>
  The matcher of the section on regular expressions gives an \<open>re\<close> module for the
  patterns whose syntax tree is known: \<open>syntax source\<close> is the tree of a source,
  and \<open>None\<close> for a source that does not compile.
\<close>

definition engine :: "platform \<Rightarrow> (pystr \<Rightarrow> rx option) \<Rightarrow> re_module" where
  "engine P syntax =
     \<lparr> re_valid = (\<lambda>source. syntax source \<noteq> None),
       re_finditer = (\<lambda>source ic s.
          case syntax source of None \<Rightarrow> [] | Some r \<Rightarrow> finditer P (ic, r) s) \<rparr>"







section \<open>Examples of annotation\<close>

text \<open>
  The two patterns of the example of the specification: \<^verbatim>\<open>fiebre\<close>, and
  \<^verbatim>\<open>(\d+) dias\<close> with U+00ED for the \<open>i\<close>; a question whose stem is
  \<open>fiebre de 3 dias\<close>, with the same letter.
\<close>

definition days_source :: pystr where
  "days_source = U ''('' @ 92 # U ''d+) d'' @ 237 # U ''as''"

definition example_syntax :: "pystr \<Rightarrow> rx option" where
  "example_syntax source =
     (if source = U ''fiebre'' then Some (lits (U ''fiebre''))
      else if source = days_source
      then Some (seqs [Grp 1 (plus Digit), L CHR '' '', lits (U ''d'' @ 237 # U ''as'')])
      else None)"


definition example_patterns :: "pyval list" where
  "example_patterns =
     [PDict [(U ''type'', PStr (U ''symptom'')), (U ''label'', PStr (U ''fever'')),
             (U ''pattern'', PStr (U ''fiebre'')), (U ''regex'', PRegex (U ''fiebre'') True)],
      PDict [(U ''type'', PStr (U ''timeline'')), (U ''label'', PStr (U ''duration'')),
             (U ''pattern'', PStr days_source), (U ''regex'', PRegex days_source True)]]"

definition fever_stem :: pystr where
  "fever_stem = U ''fiebre de 3 d'' @ 237 # U ''as''"

definition fever_question :: "(pystr, pyval) dict" where
  "fever_question = [(U ''id'', PStr (U ''X-XXXX-01'')), (U ''stem'', PStr fever_stem)]"

definition fever_entity :: pyval where
  "fever_entity =
     PDict [(U ''type'', PStr (U ''symptom'')), (U ''value'', PStr (U ''fever'')),
            (U ''text_span'', PStr (U ''fiebre'')), (U ''attributes'', PDict [])]"

definition duration_entity :: pyval where
  "duration_entity =
     PDict [(U ''type'', PStr (U ''timeline'')), (U ''value'', PStr (U ''duration'')),
            (U ''text_span'', PStr (U ''3 d'' @ 237 # U ''as'')),
            (U ''attributes'', PDict [(U ''value'', PStr (U ''3''))])]"



section \<open>One entity per match\<close>

definition example_re :: re_module where
  "example_re = engine latin1 example_syntax"


lemma fever_question_entities: "entities_of fever_question = []"
  by code_simp





section \<open>Calling the annotator twice\<close>

definition fever_once :: "(pystr, pyval) dict" where
  "fever_once = fever_question @ [(U ''clinical_entities'', PList [fever_entity, duration_entity])]"

definition fever_twice :: "(pystr, pyval) dict" where
  "fever_twice =
     fever_question @
     [(U ''clinical_entities'', PList [fever_entity, duration_entity, fever_entity, duration_entity])]"

lemma fever_once_enriched:
  "enrich_question (engine P example_syntax) fever_question example_patterns = Inr fever_once"
  by code_simp

lemma fever_twice_enriched:
  "enrich_question (engine P example_syntax) fever_once example_patterns = Inr fever_twice"
  by code_simp

text \<open>A question that comes with one entity, and the first pattern of the example alone.\<close>

definition known_entity :: pyval where
  "known_entity =
     PDict [(U ''type'', PStr (U ''sign'')), (U ''value'', PStr (U ''rash'')),
            (U ''text_span'', PStr (U ''exantema'')), (U ''attributes'', PDict [])]"

definition annotated_question :: "(pystr, pyval) dict" where
  "annotated_question =
     [(U ''stem'', PStr (U ''fiebre'')), (U ''clinical_entities'', PList [known_entity])]"

definition annotated_once :: "(pystr, pyval) dict" where
  "annotated_once =
     [(U ''stem'', PStr (U ''fiebre'')),
      (U ''clinical_entities'', PList [known_entity, fever_entity])]"

definition annotated_twice :: "(pystr, pyval) dict" where
  "annotated_twice =
     [(U ''stem'', PStr (U ''fiebre'')),
      (U ''clinical_entities'', PList [known_entity, fever_entity, fever_entity])]"

lemma annotated_once_enriched:
  "enrich_question (engine P example_syntax) annotated_question [hd example_patterns]
     = Inr annotated_once"
  by code_simp

lemma annotated_twice_enriched:
  "enrich_question (engine P example_syntax) annotated_once [hd example_patterns]
     = Inr annotated_twice"
  by code_simp

lemma annotated_counts:
  "length (entities_of annotated_question) = 1"
  "length (entities_of annotated_once) = 2"
  "length (entities_of annotated_twice) = 3"
  by code_simp+

lemma fever_counts:
  "length (entities_of fever_once) = 2"
  "length (entities_of fever_twice) = 4"
  by code_simp+

text \<open>
  C7, as the code has it. When a call of \<open>enrich_question\<close> returns, a second call
  on its result with the same patterns returns too and appends the same new
  entities once more: with \<open>n\<close> entities appended by one call, the question has
  its first entities and \<open>n\<close> more after one call, and its first entities and twice
  \<open>n\<close> more after two. For a question that had no entity, the number of entities
  after two calls is twice the number after one.
\<close>

theorem enrich_question_accumulates:
  "enrich_question R question patterns = Inr q1 \<Longrightarrow>
     \<exists>q2 new. enrich_question R q1 patterns = Inr q2 \<and>
        entities_of q1 = entities_of question @ new \<and>
        entities_of q2 = entities_of question @ new @ new \<and>
        length (entities_of q2) = length (entities_of question) + 2 * length new \<and>
        (entities_of question = [] \<longrightarrow>
           length (entities_of q2) = 2 * length (entities_of q1))"
proof -
  assume "enrich_question R question patterns = Inr q1"
  from enrich_question_twice[OF this] obtain q2 new where
    q2: "enrich_question R q1 patterns = Inr q2"
    and e1: "entities_of q1 = entities_of question @ new"
    and e2: "entities_of q2 = entities_of question @ new @ new" by blast
  have "enrich_question R q1 patterns = Inr q2 \<and>
        entities_of q1 = entities_of question @ new \<and>
        entities_of q2 = entities_of question @ new @ new \<and>
        length (entities_of q2) = length (entities_of question) + 2 * length new \<and>
        (entities_of question = [] \<longrightarrow>
           length (entities_of q2) = 2 * length (entities_of q1))"
    using q2 e1 e2 by simp
  then show ?thesis by blast
qed

theorem enrich_question_accumulates_witness:
  "enrich_question example_re fever_question example_patterns = Inr fever_once \<and>
   enrich_question example_re fever_once example_patterns = Inr fever_twice \<and>
   entities_of fever_question = [] \<and>
   length (entities_of fever_once) = 2 \<and>
   length (entities_of fever_twice) = 2 * length (entities_of fever_once)"
proof -
  note a = fever_once_enriched[of latin1, folded example_re_def]
  note b = fever_twice_enriched[of latin1, folded example_re_def]
  from enrich_question_accumulates[OF a] obtain q2 where
    "enrich_question example_re fever_once example_patterns = Inr q2"
    and "entities_of fever_question = [] \<longrightarrow>
           length (entities_of q2) = 2 * length (entities_of fever_once)"
    by blast
  with b fever_question_entities
  have "length (entities_of fever_twice) = 2 * length (entities_of fever_once)" by simp
  with a b fever_question_entities fever_counts(1) show ?thesis by simp
qed

text \<open>
  C7 as stated fails on a question that comes with one entity: one call of the
  annotator with the pattern \<open>fiebre\<close> on the stem \<open>fiebre\<close> leaves it with two
  entities, a second call with three, which is neither twice two nor twice the
  one entity that a call appends.
\<close>

theorem enrich_question_accumulates_counterexample:
  "enrich_question example_re annotated_question [hd example_patterns] = Inr annotated_once \<and>
   enrich_question example_re annotated_once [hd example_patterns] = Inr annotated_twice \<and>
   length (entities_of annotated_question) = 1 \<and>
   length (entities_of annotated_once) = 2 \<and>
   length (entities_of annotated_twice) = 3 \<and>
   length (entities_of annotated_twice) \<noteq> 2 * length (entities_of annotated_once) \<and>
   length (entities_of annotated_twice) \<noteq>
     2 * (length (entities_of annotated_once) - length (entities_of annotated_question))"
  using annotated_once_enriched[of latin1, folded example_re_def]
    annotated_twice_enriched[of latin1, folded example_re_def]
  by (simp add: annotated_counts)

end
